theory Spec2Isabelle
  imports Complex_Main "HOL-Library.Word"
begin

section \<open>Audio encoding (src/hooks/useLiveSession.ts, lines 13-80)\<close>

text \<open>
  A \<open>Float32Array\<close> element is a finite binary32 value, hence a rational number; it is
  modelled as a \<open>real\<close>. The only arithmetic the encoders perform on a sample is a
  product with \<open>32768\<close> or \<open>32767\<close> (at most 24 + 15 significant bits), which binary64
  computes exactly, so the real product is the value JavaScript computes. NaN and the
  infinities are outside this type. Bytes are \<open>8 word\<close>, an \<open>Int16Array\<close> element is a
  \<open>16 word\<close>, and a JavaScript string of Latin-1 code units is a \<open>string\<close>.
\<close>

type_synonym byte = "8 word"

definition SAMPLE_RATE :: nat where
  "SAMPLE_RATE = 16000"

definition BUFFER_SIZE :: nat where
  "BUFFER_SIZE = 4096"

text \<open>
  ECMAScript's conversion of a finite number to an integer truncates towards zero;
  \<open>ToInt16\<close> then reduces modulo \<open>2 ^ 16\<close> into the signed range, which is what
  \<open>word_of_int\<close> into \<open>16 word\<close> followed by \<open>sint\<close> does.
\<close>

definition js_trunc :: "real \<Rightarrow> int" where
  "js_trunc x = (if x < 0 then \<lceil>x\<rceil> else \<lfloor>x\<rfloor>)"

definition ToInt16 :: "real \<Rightarrow> 16 word" where
  "ToInt16 x = word_of_int (js_trunc x)"

text \<open>
  \<open>new Uint8Array(int16.buffer)\<close> views each 16-bit element as two bytes in the
  platform's byte order, little-endian on every platform the browser code runs on.
\<close>

definition int16_bytes :: "16 word \<Rightarrow> byte list" where
  "int16_bytes w = [word_of_nat (unat w mod 256), word_of_nat (unat w div 256)]"

definition fromCharCode :: "byte \<Rightarrow> char" where
  "fromCharCode b = char_of (unat b)"

text \<open>
  \<open>btoa\<close> is the browser's base64 encoder (RFC 4648, alphabet \<open>A-Z a-z 0-9 + /\<close>,
  padding \<open>=\<close>) over a string of code units below 256.
\<close>

definition b64_char :: "nat \<Rightarrow> char" where
  "b64_char i =
     (if i < 26 then char_of (65 + i)
      else if i < 52 then char_of (97 + (i - 26))
      else if i < 62 then char_of (48 + (i - 52))
      else if i = 62 then CHR ''+'' else CHR ''/'')"

fun btoa :: "string \<Rightarrow> string" where
  "btoa [] = []"
| "btoa [a] =
     (let x = (of_char a :: nat) in
      [b64_char (x div 4), b64_char ((x mod 4) * 16), CHR ''='', CHR ''=''])"
| "btoa [a, b] =
     (let x = (of_char a :: nat); y = (of_char b :: nat) in
      [b64_char (x div 4), b64_char ((x mod 4) * 16 + y div 16),
       b64_char ((y mod 16) * 4), CHR ''=''])"
| "btoa (a # b # c # rest) =
     (let x = (of_char a :: nat); y = (of_char b :: nat); z = (of_char c :: nat) in
      [b64_char (x div 4), b64_char ((x mod 4) * 16 + y div 16),
       b64_char ((y mod 16) * 4 + z div 64), b64_char (z mod 64)] @ btoa rest)"

definition encode :: "byte list \<Rightarrow> string" where
  "encode bytes = btoa (map fromCharCode bytes)"

record wire_frame =
  data :: string
  mimeType :: string

text \<open>The \<open>Int16Array\<close> that \<open>createBlob\<close> fills (lines 29-32).\<close>

definition createBlob_int16 :: "real list \<Rightarrow> 16 word list" where
  "createBlob_int16 samples = map (\<lambda>x. ToInt16 (x * 32768)) samples"

definition createBlob :: "real list \<Rightarrow> wire_frame" where
  "createBlob samples =
     (let int16 = createBlob_int16 samples in
      \<lparr> data = encode (concat (map int16_bytes int16)),
        mimeType = ''audio/pcm;rate=16000'' \<rparr>)"

subsection \<open>The WAV container\<close>

text \<open>
  \<open>DataView\<close> writes are updates of the byte buffer at explicit offsets. Every write of
  \<open>createWavBlob\<close> lies inside the buffer of \<open>44 + 2 n\<close> bytes it allocates (the
  header offsets are below 44, sample \<open>i\<close> goes to \<open>44 + 2 i\<close>), so the
  \<open>RangeError\<close> of an out-of-range write never arises. Integer arguments are reduced
  modulo the field width, as \<open>ToUint8\<close>, \<open>ToUint16\<close> and \<open>ToUint32\<close> do. The
  sample rate is a natural number.
\<close>

definition setUint8 :: "byte list \<Rightarrow> nat \<Rightarrow> nat \<Rightarrow> byte list" where
  "setUint8 view off v = view[off := word_of_nat (v mod 256)]"

definition setUint16 :: "byte list \<Rightarrow> nat \<Rightarrow> nat \<Rightarrow> byte list" where
  "setUint16 view off v =
     view[off := word_of_nat (v mod 256), off + 1 := word_of_nat (v div 256 mod 256)]"

definition setUint32 :: "byte list \<Rightarrow> nat \<Rightarrow> nat \<Rightarrow> byte list" where
  "setUint32 view off v =
     view[off := word_of_nat (v mod 256),
          off + 1 := word_of_nat (v div 256 mod 256),
          off + 2 := word_of_nat (v div 65536 mod 256),
          off + 3 := word_of_nat (v div 16777216 mod 256)]"

definition setInt16 :: "byte list \<Rightarrow> nat \<Rightarrow> real \<Rightarrow> byte list" where
  "setInt16 view off x =
     (let w = ToInt16 x in
      view[off := word_of_nat (unat w mod 256), off + 1 := word_of_nat (unat w div 256)])"

fun writeString :: "byte list \<Rightarrow> nat \<Rightarrow> string \<Rightarrow> byte list" where
  "writeString view off [] = view"
| "writeString view off (c # cs) = writeString (setUint8 view off (of_char c)) (off + 1) cs"

definition wav_sample :: "real \<Rightarrow> real" where
  "wav_sample x = (let s = max (- 1) (min 1 x) in if s < 0 then s * 32768 else s * 32767)"

fun write_pcm :: "byte list \<Rightarrow> nat \<Rightarrow> real list \<Rightarrow> byte list" where
  "write_pcm view off [] = view"
| "write_pcm view off (x # xs) = write_pcm (setInt16 view off (wav_sample x)) (off + 2) xs"

record blob =
  blob_bytes :: "byte list"
  blob_type :: string

definition wav_header :: "nat \<Rightarrow> nat \<Rightarrow> byte list \<Rightarrow> byte list" where
  "wav_header dataSize sampleRate buffer =
     (let numChannels = 1;
          bitsPerSample = 16;
          bytesPerSample = bitsPerSample div 8;
          blockAlign = numChannels * bytesPerSample;
          byteRate = sampleRate * blockAlign;
          view = writeString buffer 0 ''RIFF'';
          view = setUint32 view 4 (36 + dataSize);
          view = writeString view 8 ''WAVE'';
          view = writeString view 12 ''fmt '';
          view = setUint32 view 16 16;
          view = setUint16 view 20 1;
          view = setUint16 view 22 numChannels;
          view = setUint32 view 24 sampleRate;
          view = setUint32 view 28 byteRate;
          view = setUint16 view 32 blockAlign;
          view = setUint16 view 34 bitsPerSample;
          view = writeString view 36 ''data'';
          view = setUint32 view 40 dataSize
      in view)"

definition createWavBlob :: "real list \<Rightarrow> nat \<Rightarrow> blob" where
  "createWavBlob pcmData sampleRate =
     (let bytesPerSample = 16 div 8;
          dataSize = length pcmData * bytesPerSample;
          buffer = replicate (44 + dataSize) 0;
          view = wav_header dataSize sampleRate buffer
      in \<lparr> blob_bytes = write_pcm view 44 pcmData, blob_type = ''audio/wav'' \<rparr>)"

text \<open>Readers of a little-endian field, as \<open>DataView.getUint16/getUint32/getInt16\<close>.\<close>

definition getUint16 :: "byte list \<Rightarrow> nat \<Rightarrow> nat" where
  "getUint16 view off = unat (view ! off) + 256 * unat (view ! (off + 1))"

definition getUint32 :: "byte list \<Rightarrow> nat \<Rightarrow> nat" where
  "getUint32 view off =
     unat (view ! off) + 256 * unat (view ! (off + 1)) + 65536 * unat (view ! (off + 2))
       + 16777216 * unat (view ! (off + 3))"

definition getInt16 :: "byte list \<Rightarrow> nat \<Rightarrow> int" where
  "getInt16 view off = sint (word_of_nat (getUint16 view off) :: 16 word)"

subsection \<open>Reading a wire frame back\<close>

text \<open>
  Modelled from the spec: the decoder \<open>decodePCM16\<close> of the specification's round-trip
  property has no counterpart in the source, which only encodes. The four definitions of
  this subsection are that decoder, the standard inverse of the encoder: base64 decoding
  (\<open>atob\<close>), 16-bit little-endian signed samples, each divided by \<open>32768\<close>.
\<close>

definition b64_index :: "char \<Rightarrow> nat option" where
  "b64_index c =
     (let n = (of_char c :: nat) in
      if 65 \<le> n \<and> n \<le> 90 then Some (n - 65)
      else if 97 \<le> n \<and> n \<le> 122 then Some (n - 71)
      else if 48 \<le> n \<and> n \<le> 57 then Some (n + 4)
      else if n = 43 then Some 62
      else if n = 47 then Some 63
      else None)"

fun atob :: "string \<Rightarrow> string option" where
  "atob [] = Some []"
| "atob (a # b # c # d # rest) =
     (case (b64_index a, b64_index b) of
        (Some p, Some q) \<Rightarrow>
          if rest = [] \<and> c = CHR ''='' \<and> d = CHR ''='' then
            Some [char_of (p * 4 + q div 16)]
          else (case b64_index c of
            None \<Rightarrow> None
          | Some r \<Rightarrow>
              if rest = [] \<and> d = CHR ''='' then
                Some [char_of (p * 4 + q div 16), char_of ((q mod 16) * 16 + r div 4)]
              else (case (b64_index d, atob rest) of
                (Some t, Some out) \<Rightarrow>
                  Some (char_of (p * 4 + q div 16) # char_of ((q mod 16) * 16 + r div 4)
                        # char_of ((r mod 4) * 64 + t) # out)
              | _ \<Rightarrow> None))
      | _ \<Rightarrow> None)"
| "atob _ = None"

fun pcm16_samples :: "nat list \<Rightarrow> real list option" where
  "pcm16_samples [] = Some []"
| "pcm16_samples (lo # hi # rest) =
     map_option
       (\<lambda>out. real_of_int (sint (word_of_nat (lo + 256 * hi) :: 16 word)) / 32768 # out)
       (pcm16_samples rest)"
| "pcm16_samples [lo] = None"

text \<open>
  Modelled from the spec: \<open>decodePCM16\<close>, absent from the source. \<open>None\<close> when the
  data is not well-formed base64 or holds an odd number of bytes.
\<close>

definition decodePCM16 :: "string \<Rightarrow> real list option" where
  "decodePCM16 s =
     (case atob s of None \<Rightarrow> None | Some bin \<Rightarrow> pcm16_samples (map of_char bin))"

section \<open>Transcript text (onmessage, lines 222-241; stopSession, line 300)\<close>

text \<open>
  Transcript strings are modelled with code units below 256. The regular expressions
  carry neither the \<open>i\<close> nor the \<open>u\<close> flag, so \<open>[a-z]\<close>, \<open>[A-Z]\<close> and \<open>\d\<close> are
  the ASCII ranges; \<open>\s\<close> (and the set removed by \<open>trim\<close>) is, below 256, tab, line
  feed, vertical tab, form feed, carriage return, space and no-break space.
\<close>

definition is_lower :: "char \<Rightarrow> bool" where
  "is_lower c = (97 \<le> (of_char c :: nat) \<and> (of_char c :: nat) \<le> 122)"

definition is_upper :: "char \<Rightarrow> bool" where
  "is_upper c = (65 \<le> (of_char c :: nat) \<and> (of_char c :: nat) \<le> 90)"

definition is_letter :: "char \<Rightarrow> bool" where
  "is_letter c = (is_lower c \<or> is_upper c)"

definition is_digit :: "char \<Rightarrow> bool" where
  "is_digit c = (48 \<le> (of_char c :: nat) \<and> (of_char c :: nat) \<le> 57)"

definition is_space :: "char \<Rightarrow> bool" where
  "is_space c = ((of_char c :: nat) \<in> {9, 10, 11, 12, 13, 32, 160})"

definition is_punct :: "char \<Rightarrow> bool" where
  "is_punct c = (c = CHR ''.'' \<or> c = CHR ''?'' \<or> c = CHR ''!'' \<or> c = CHR '','')"

definition non_space :: "char \<Rightarrow> bool" where
  "non_space c = (\<not> is_space c)"

text \<open>
  \<open>s.replace(/\\n/g, '\n')\<close>: every non-overlapping occurrence, left to right, of a
  backslash followed by \<open>n\<close> becomes one line feed.
\<close>

fun replace_escaped_newline :: "string \<Rightarrow> string" where
  "replace_escaped_newline (a # b # rest) =
     (if a = CHR 0x5C \<and> b = CHR ''n'' then CHR 0x0A # replace_escaped_newline rest
      else a # replace_escaped_newline (b # rest))"
| "replace_escaped_newline s = s"

text \<open>
  \<open>s.replace(/(P)(Q)/g, '$1 $2')\<close> for one-character classes \<open>P\<close> and \<open>Q\<close>: the
  scan goes left to right; a match consumes both characters, so the next match starts
  after the second one.
\<close>

fun replace_pair :: "(char \<Rightarrow> bool) \<Rightarrow> (char \<Rightarrow> bool) \<Rightarrow> string \<Rightarrow> string" where
  "replace_pair P Q (a # b # rest) =
     (if P a \<and> Q b then a # CHR '' '' # b # replace_pair P Q rest
      else a # replace_pair P Q (b # rest))"
| "replace_pair P Q s = s"

text \<open>A string in which no character of class \<open>P\<close> is directly followed by one of class \<open>Q\<close>.\<close>

fun no_pair :: "(char \<Rightarrow> bool) \<Rightarrow> (char \<Rightarrow> bool) \<Rightarrow> string \<Rightarrow> bool" where
  "no_pair P Q (a # b # rest) = (\<not> (P a \<and> Q b) \<and> no_pair P Q (b # rest))"
| "no_pair P Q s = True"

definition formattedText :: "string \<Rightarrow> string" where
  "formattedText buffer =
     replace_pair is_letter is_digit
       (replace_pair is_punct non_space
         (replace_pair is_lower is_upper
           (replace_escaped_newline buffer)))"

fun split_newline :: "string \<Rightarrow> string list" where
  "split_newline [] = [[]]"
| "split_newline (c # cs) =
     (if c = CHR 0x0A then [] # split_newline cs
      else (case split_newline cs of
              [] \<Rightarrow> [[c]]
            | l # ls \<Rightarrow> (c # l) # ls))"

text \<open>
  The lines handed to \<open>onTranscriptUpdate\<close> are lists of UTF-16 code units
  (\<open>nat\<close>), since capitalizing can leave the range below 256.
  \<open>toUpperCase\<close> on one code unit below 256: the ASCII and Latin-1 lowercase letters
  move down by 32, sharp s becomes \<open>SS\<close>, the micro sign becomes U+039C and y with
  diaeresis U+0178; every other code unit below 256 is its own capital.
\<close>

definition toUpperCase :: "char \<Rightarrow> nat list" where
  "toUpperCase c =
     (let n = (of_char c :: nat) in
      if 97 \<le> n \<and> n \<le> 122 then [n - 32]
      else if n = 181 then [924]
      else if n = 223 then [83, 83]
      else if 224 \<le> n \<and> n \<le> 254 \<and> n \<noteq> 247 then [n - 32]
      else if n = 255 then [376]
      else [n])"

definition capitalize :: "string \<Rightarrow> nat list" where
  "capitalize line =
     (case line of [] \<Rightarrow> [] | c # cs \<Rightarrow> toUpperCase c @ map of_char cs)"

definition capitalizedLines :: "string \<Rightarrow> nat list list" where
  "capitalizedLines buffer = map capitalize (split_newline buffer)"

text \<open>
  The characters below 256 that have a capital of their own: the lowercase letters
  \<open>a-z\<close>, the micro sign, sharp s, and the Latin-1 letters from 224 to 255 except the
  division sign.
\<close>

definition lowercase_letter :: "char \<Rightarrow> bool" where
  "lowercase_letter c =
     (let n = (of_char c :: nat) in
      (97 \<le> n \<and> n \<le> 122) \<or> n = 181 \<or> (223 \<le> n \<and> n \<le> 255 \<and> n \<noteq> 247))"

definition trim :: "string \<Rightarrow> string" where
  "trim s = rev (dropWhile is_space (rev (dropWhile is_space s)))"

definition ends_with_space :: "string \<Rightarrow> bool" where
  "ends_with_space s = (s \<noteq> [] \<and> is_space (last s))"

definition starts_with_space :: "string \<Rightarrow> bool" where
  "starts_with_space s = (case s of [] \<Rightarrow> False | c # _ \<Rightarrow> is_space c)"

section \<open>The session hook (useLiveSession, lines 82-338)\<close>

text \<open>
  The hook's React state (\<open>status\<close>, \<open>error\<close>, \<open>isSessionActive\<close>, \<open>isPaused\<close>) and
  its refs are the fields of one record. The two \<open>...ForCallback\<close> refs mirror the
  state only when React runs the effects of a commit, which is the event \<open>Effects\<close>.
  A ref to a browser object is \<open>True\<close> when it holds one and \<open>False\<close> when it is null.
  \<open>sessionPromise\<close> is the promise returned by the latest \<open>live.connect\<close>, which the
  audio callback captures; \<open>thenQueue\<close> holds the frames whose \<open>then\<close> callback waits
  for it, and \<open>closeQueued\<close> counts the \<open>session.close()\<close> callbacks that wait for
  it. The model follows the latest channel only: a new \<open>live.connect\<close> starts both
  afresh. What the hook does to its surroundings is recorded in \<open>updates\<close> (the calls
  of \<open>onTranscriptUpdate\<close>), \<open>sent\<close> (the calls of \<open>sendRealtimeInput\<close>) and
  three counters of calls. The system instruction handed to \<open>live.connect\<close>
  influences none of this and is left out; \<open>startSession\<close> is taken as one step, the
  outcome of the awaited \<open>getUserMedia\<close> being an argument.
\<close>

datatype promise = NoPromise | Pending | Fulfilled | Rejected

record session =
  status :: string
  error :: string
  isSessionActive :: bool
  isPaused :: bool
  isSessionActiveForCallback :: bool
  isPausedForCallback :: bool
  sessionPromiseRef :: bool
  sessionPromise :: promise
  thenQueue :: "real list list"
  inputAudioContextRef :: bool
  scriptProcessorNodeRef :: bool
  sourceNodeRef :: bool
  streamRef :: bool
  bufferRef :: string
  lastMessageTimeRef :: "int option"
  capturedAudioChunksRef :: "real list list"
  updates :: "nat list list list"
  sent :: "wire_frame list"
  getUserMediaCalls :: nat
  connectCalls :: nat
  closeCalls :: nat
  closeQueued :: nat

definition initial :: session where
  "initial =
     \<lparr> status = [], error = [], isSessionActive = False, isPaused = False,
       isSessionActiveForCallback = False, isPausedForCallback = False,
       sessionPromiseRef = False, sessionPromise = NoPromise, thenQueue = [],
       inputAudioContextRef = False, scriptProcessorNodeRef = False,
       sourceNodeRef = False, streamRef = False,
       bufferRef = [], lastMessageTimeRef = None, capturedAudioChunksRef = [],
       updates = [], sent = [], getUserMediaCalls = 0, connectCalls = 0, closeCalls = 0,
       closeQueued = 0 \<rparr>"

definition effects :: "session \<Rightarrow> session" where
  "effects s =
     s\<lparr> isSessionActiveForCallback := isSessionActive s,
        isPausedForCallback := isPaused s \<rparr>"

definition stopAudio :: "session \<Rightarrow> session" where
  "stopAudio s =
     s\<lparr> streamRef := False, scriptProcessorNodeRef := False,
        sourceNodeRef := False, inputAudioContextRef := False \<rparr>"

text \<open>
  \<open>sessionPromiseRef.current?.then(session => session.close()).catch(() => {})\<close>
  (line 128): with the ref set, \<open>close\<close> is called at once when the promise is
  fulfilled, waits for the promise while it is pending, and is never called when the
  promise is rejected.
\<close>

definition request_close :: "session \<Rightarrow> session" where
  "request_close s =
     (if sessionPromiseRef s then
        (case sessionPromise s of
           Fulfilled \<Rightarrow> s\<lparr> closeCalls := closeCalls s + 1 \<rparr>
         | Pending \<Rightarrow> s\<lparr> closeQueued := closeQueued s + 1 \<rparr>
         | _ \<Rightarrow> s)
      else s)"

definition cleanUpSession :: "session \<Rightarrow> session" where
  "cleanUpSession s =
     (let s = s\<lparr> isSessionActive := False, isPaused := False \<rparr>;
          s = stopAudio s;
          s = request_close s
      in s\<lparr> sessionPromiseRef := False, bufferRef := [],
            lastMessageTimeRef := None, capturedAudioChunksRef := [] \<rparr>)"

definition pauseSession :: "session \<Rightarrow> session" where
  "pauseSession s =
     (if isSessionActiveForCallback s
      then s\<lparr> isPaused := True, status := ''Live session paused...'' \<rparr>
      else s)"

definition resumeSession :: "session \<Rightarrow> session" where
  "resumeSession s =
     (if isSessionActiveForCallback s
      then s\<lparr> isPaused := False, status := ''Live session resumed. Listening...'' \<rparr>
      else s)"

text \<open>
  \<open>startSession apiKey deviceError\<close>: \<open>apiKey\<close> is what \<open>localStorage\<close> holds
  (\<open>None\<close> for null; the empty string is falsy too), \<open>deviceError\<close> is the message of
  the error \<open>getUserMedia\<close> rejects with, or \<open>None\<close> when it yields a stream.
\<close>

definition startSession :: "string option \<Rightarrow> string option \<Rightarrow> session \<Rightarrow> session" where
  "startSession apiKey deviceError s =
     (if isSessionActiveForCallback s then s
      else if apiKey = None \<or> apiKey = Some [] then
        s\<lparr> error := ''Missing API Key. Please add it in settings.'' \<rparr>
      else
        (let s = s\<lparr> error := [], status := ''Connecting...'', bufferRef := [],
                     capturedAudioChunksRef := [], lastMessageTimeRef := None,
                     updates := updates s @ [[]], isPaused := False \<rparr>;
             s = s\<lparr> getUserMediaCalls := getUserMediaCalls s + 1 \<rparr>
         in case deviceError of
              Some message \<Rightarrow>
                cleanUpSession
                  (s\<lparr> error := ''Failed to start session: '' @ message,
                      status := ''Session failed to start.'' \<rparr>)
            | None \<Rightarrow>
                s\<lparr> streamRef := True, inputAudioContextRef := True, sourceNodeRef := True,
                   connectCalls := connectCalls s + 1,
                   sessionPromise := Pending, thenQueue := [], closeQueued := 0,
                   sessionPromiseRef := True,
                   scriptProcessorNodeRef := True \<rparr>))"

definition onopen :: "session \<Rightarrow> session" where
  "onopen s = s\<lparr> status := ''Connection opened. Listening...'', isSessionActive := True \<rparr>"

definition onclose :: "string \<Rightarrow> session \<Rightarrow> session" where
  "onclose reason s =
     (if isSessionActiveForCallback s
      then cleanUpSession (s\<lparr> status := ''Connection closed: '' @ reason \<rparr>)
      else s)"

definition onerror :: "string \<Rightarrow> session \<Rightarrow> session" where
  "onerror message s = cleanUpSession (s\<lparr> error := ''Error: '' @ message \<rparr>)"

text \<open>
  A server message: \<open>None\<close> when \<open>serverContent?.modelTurn?.parts\<close> is undefined,
  otherwise the \<open>text\<close> of each part (\<open>None\<close> for a part without text).
\<close>

type_synonym message = "string option list option"

definition responseText :: "string option list \<Rightarrow> string" where
  "responseText parts =
     concat (List.map_filter (\<lambda>t. case t of None \<Rightarrow> None
                                   | Some x \<Rightarrow> if x = [] then None else Some x) parts)"

definition timeSinceLastMessage :: "int option \<Rightarrow> int \<Rightarrow> int" where
  "timeSinceLastMessage lastTime now =
     (case lastTime of
        None \<Rightarrow> 0
      | Some t \<Rightarrow> if t = 0 then 0 else now - t)"

definition separator :: "int \<Rightarrow> string \<Rightarrow> string \<Rightarrow> string" where
  "separator gap buffer text =
     (if gap > 300 \<and> length buffer > 0 \<and> \<not> ends_with_space buffer
         \<and> \<not> starts_with_space text
      then '' '' else [])"

definition onmessage :: "int \<Rightarrow> message \<Rightarrow> session \<Rightarrow> session" where
  "onmessage now msg s =
     (let gap = timeSinceLastMessage (lastMessageTimeRef s) now;
          s = s\<lparr> lastMessageTimeRef := Some now \<rparr>
      in case msg of
           None \<Rightarrow> s
         | Some parts \<Rightarrow>
             (let text = responseText parts in
              if text = [] then s
              else
                (let buffer = formattedText (bufferRef s @ separator gap (bufferRef s) text @ text)
                 in s\<lparr> bufferRef := buffer,
                       updates := updates s @ [capitalizedLines buffer] \<rparr>)))"

text \<open>
  The audio callback archives a copy of the frame, then chains the send on the session
  promise: the callback runs at once when the promise is fulfilled, waits in
  \<open>thenQueue\<close> while it is pending, and is dropped when it is rejected.
\<close>

definition send_if_live :: "real list \<Rightarrow> session \<Rightarrow> session" where
  "send_if_live pcmData s =
     (if isSessionActiveForCallback s \<and> \<not> isPausedForCallback s
      then s\<lparr> sent := sent s @ [createBlob pcmData] \<rparr>
      else s)"

definition onaudioprocess :: "real list \<Rightarrow> session \<Rightarrow> session" where
  "onaudioprocess pcmData s =
     (let s = s\<lparr> capturedAudioChunksRef := capturedAudioChunksRef s @ [pcmData] \<rparr>
      in case sessionPromise s of
           Fulfilled \<Rightarrow> send_if_live pcmData s
         | Pending \<Rightarrow> s\<lparr> thenQueue := thenQueue s @ [pcmData] \<rparr>
         | _ \<Rightarrow> s)"

definition promiseFulfilled :: "session \<Rightarrow> session" where
  "promiseFulfilled s =
     (if sessionPromise s = Pending
      then fold send_if_live (thenQueue s)
             (s\<lparr> sessionPromise := Fulfilled, thenQueue := [],
                closeCalls := closeCalls s + closeQueued s, closeQueued := 0 \<rparr>)
      else s)"

definition promiseRejected :: "string \<Rightarrow> session \<Rightarrow> session" where
  "promiseRejected message s =
     (if sessionPromise s = Pending then
        (let s = s\<lparr> sessionPromise := Rejected, thenQueue := [], closeQueued := 0 \<rparr>
         in if \<not> isSessionActiveForCallback s
            then cleanUpSession
                   (s\<lparr> error := ''Failed to start session: '' @ message,
                       status := ''Session failed to start.'' \<rparr>)
            else s)
      else s)"

record stop_result =
  transcript :: string
  audioBlob :: "blob option"

definition stopSession :: "session \<Rightarrow> session \<times> stop_result" where
  "stopSession s =
     (if \<not> isSessionActiveForCallback s then (s, \<lparr> transcript = [], audioBlob = None \<rparr>)
      else
        (let s = s\<lparr> status := ''Session stopped.'' \<rparr>;
             finalTranscript = trim (bufferRef s);
             finalAudioBlob =
               (if length (capturedAudioChunksRef s) > 0
                then Some (createWavBlob (concat (capturedAudioChunksRef s)) SAMPLE_RATE)
                else None)
         in (cleanUpSession s, \<lparr> transcript = finalTranscript, audioBlob = finalAudioBlob \<rparr>)))"

text \<open>The cleanup of the hook's last effect, run when the component unmounts.\<close>

definition unmount :: "session \<Rightarrow> session" where
  "unmount s = (if isSessionActiveForCallback s then cleanUpSession s else s)"

datatype event =
    StartSession "string option" "string option"
  | OnOpen
  | OnClose string
  | OnError string
  | OnMessage int message
  | PromiseFulfilled
  | PromiseRejected string
  | AudioProcess "real list"
  | PauseSession
  | ResumeSession
  | StopSession
  | Effects
  | Unmount

fun step :: "event \<Rightarrow> session \<Rightarrow> session" where
  "step (StartSession apiKey deviceError) s = startSession apiKey deviceError s"
| "step OnOpen s = onopen s"
| "step (OnClose reason) s = onclose reason s"
| "step (OnError message) s = onerror message s"
| "step (OnMessage now msg) s = onmessage now msg s"
| "step PromiseFulfilled s = promiseFulfilled s"
| "step (PromiseRejected message) s = promiseRejected message s"
| "step (AudioProcess pcmData) s = onaudioprocess pcmData s"
| "step PauseSession s = pauseSession s"
| "step ResumeSession s = resumeSession s"
| "step StopSession s = fst (stopSession s)"
| "step Effects s = effects s"
| "step Unmount s = unmount s"

definition run :: "event list \<Rightarrow> session \<Rightarrow> session" where
  "run evs s = fold step evs s"

subsection \<open>Sessions used as concrete inputs\<close>

text \<open>
  An open session that has archived one frame and received one fragment; a session
  whose channel has not opened yet; and a controller back at rest after a full session.
\<close>

definition live_example :: session where
  "live_example =
     run [StartSession (Some ''key'') None, OnOpen, PromiseFulfilled, Effects,
          AudioProcess [1 / 2], OnMessage 1000 (Some [Some ''hello''])] initial"

definition connecting_example :: session where
  "connecting_example =
     run [StartSession (Some ''key'') None, AudioProcess [1 / 2]] initial"

definition idle_example :: session where
  "idle_example =
     run [StartSession (Some ''key'') None, OnOpen, PromiseFulfilled, Effects,
          StopSession, Effects] initial"

text \<open>
  Two open sessions whose buffers carry boundary whitespace, and the five frames of the
  pause scenario as one event list.
\<close>

definition padded_example :: session where
  "padded_example =
     run [StartSession (Some ''key'') None, OnOpen, PromiseFulfilled, Effects,
          OnMessage 1000 (Some [Some ''  spine ''])] initial"

definition trailing_example :: session where
  "trailing_example =
     run [StartSession (Some ''key'') None, OnOpen, PromiseFulfilled, Effects,
          OnMessage 1000 (Some [Some ''hello ''])] initial"

definition pause_scenario_events :: "real list \<Rightarrow> real list \<Rightarrow> real list \<Rightarrow> real list
    \<Rightarrow> real list \<Rightarrow> event list" where
  "pause_scenario_events f1 f2 f3 f4 f5 =
     [AudioProcess f1, AudioProcess f2, PauseSession, Effects,
      AudioProcess f3, AudioProcess f4, AudioProcess f5]"

definition empty_result :: stop_result where
  "empty_result = \<lparr> transcript = [], audioBlob = None \<rparr>"

definition open_example :: session where
  "open_example =
     run [StartSession (Some ''key'') None, OnOpen, PromiseFulfilled, Effects] initial"

text \<open>
  What ties the live updates to the stored buffer: whenever the buffer holds text, the
  latest call of \<open>onTranscriptUpdate\<close> carried the capitalized lines of exactly that
  buffer.
\<close>

definition delivered :: "session \<Rightarrow> bool" where
  "delivered s =
     (bufferRef s \<noteq> [] \<longrightarrow>
        updates s \<noteq> [] \<and> last (updates s) = capitalizedLines (bufferRef s))"

section \<open>Properties of the session controller\<close>

lemmas text_defs = formattedText_def capitalizedLines_def capitalize_def toUpperCase_def
  is_letter_def is_lower_def is_upper_def is_digit_def is_punct_def non_space_def is_space_def
  separator_def ends_with_space_def starts_with_space_def responseText_def List.map_filter_def
  timeSinceLastMessage_def trim_def char_of_def bit_Suc_0_iff

lemmas codec_defs = createBlob_def createBlob_int16_def encode_def int16_bytes_def
  ToInt16_def js_trunc_def fromCharCode_def b64_char_def char_of_def bit_Suc_0_iff

lemmas session_defs = run_def initial_def startSession_def onopen_def promiseFulfilled_def
  effects_def onaudioprocess_def send_if_live_def onmessage_def onclose_def onerror_def
  cleanUpSession_def request_close_def stopAudio_def pauseSession_def resumeSession_def
  stopSession_def
  promiseRejected_def unmount_def Let_def

lemma live_example_eq:
  "live_example =
     \<lparr> status = ''Connection opened. Listening...'', error = [],
       isSessionActive = True, isPaused = False,
       isSessionActiveForCallback = True, isPausedForCallback = False,
       sessionPromiseRef = True, sessionPromise = Fulfilled, thenQueue = [],
       inputAudioContextRef = True, scriptProcessorNodeRef = True,
       sourceNodeRef = True, streamRef = True, bufferRef = ''hello'',
       lastMessageTimeRef = Some 1000, capturedAudioChunksRef = [[1 / 2]],
       updates = [[], [map of_char ''Hello'']],
       sent = [\<lparr> data = ''AEA='', mimeType = ''audio/pcm;rate=16000'' \<rparr>],
       getUserMediaCalls = 1, connectCalls = 1, closeCalls = 0, closeQueued = 0 \<rparr>"
  by (simp add: live_example_def session_defs text_defs codec_defs)

lemma connecting_example_eq:
  "connecting_example =
     \<lparr> status = ''Connecting...'', error = [], isSessionActive = False,
       isPaused = False, isSessionActiveForCallback = False,
       isPausedForCallback = False, sessionPromiseRef = True,
       sessionPromise = Pending, thenQueue = [[1 / 2]],
       inputAudioContextRef = True, scriptProcessorNodeRef = True,
       sourceNodeRef = True, streamRef = True, bufferRef = [],
       lastMessageTimeRef = None, capturedAudioChunksRef = [[1 / 2]],
       updates = [[]], sent = [], getUserMediaCalls = 1, connectCalls = 1,
       closeCalls = 0, closeQueued = 0 \<rparr>"
  by (simp add: connecting_example_def session_defs)

lemma idle_example_eq:
  "idle_example =
     \<lparr> status = ''Session stopped.'', error = [], isSessionActive = False,
       isPaused = False, isSessionActiveForCallback = False,
       isPausedForCallback = False, sessionPromiseRef = False,
       sessionPromise = Fulfilled, thenQueue = [],
       inputAudioContextRef = False, scriptProcessorNodeRef = False,
       sourceNodeRef = False, streamRef = False, bufferRef = [],
       lastMessageTimeRef = None, capturedAudioChunksRef = [], updates = [[]],
       sent = [], getUserMediaCalls = 1, connectCalls = 1, closeCalls = 1,
       closeQueued = 0 \<rparr>"
  by (simp add: idle_example_def session_defs)

lemma cleanUpSession_fields:
  "bufferRef (cleanUpSession s) = []"
  "capturedAudioChunksRef (cleanUpSession s) = []"
  "lastMessageTimeRef (cleanUpSession s) = None"
  "isSessionActiveForCallback (cleanUpSession s) = isSessionActiveForCallback s"
  "isPausedForCallback (cleanUpSession s) = isPausedForCallback s"
  "isSessionActive (cleanUpSession s) = False"
  "updates (cleanUpSession s) = updates s"
  "sent (cleanUpSession s) = sent s"
  by (simp_all add: cleanUpSession_def request_close_def stopAudio_def Let_def
      split: promise.splits)

lemma trim_Nil: "trim [] = []"
  by (simp add: trim_def)

lemma stop_after_cleanup:
  "snd (stopSession (cleanUpSession s)) = empty_result"
  "snd (stopSession (effects (cleanUpSession s))) = empty_result"
  by (simp_all add: stopSession_def cleanUpSession_fields trim_Nil Let_def effects_def
      empty_result_def)

text \<open>
  C9. \<open>stopSession\<close> on a controller whose active flag (the one the guard of line 295
  reads) is not set returns the empty transcript and no audio container, and leaves the
  whole state as it was: status, error and every per-session ref.
\<close>

theorem stop_idle_noop:
  "\<not> isSessionActiveForCallback s \<Longrightarrow> stopSession s = (s, empty_result)"
  by (simp add: stopSession_def empty_result_def)

theorem stop_idle_noop_witness:
  "\<not> isSessionActiveForCallback idle_example \<and>
   stopSession idle_example = (idle_example, \<lparr> transcript = [], audioBlob = None \<rparr>)"
proof -
  have h: "\<not> isSessionActiveForCallback idle_example"
    by (simp add: idle_example_eq)
  show ?thesis
    using h stop_idle_noop [OF h] by (simp add: empty_result_def)
qed

text \<open>
  C1, as the claim states it, fails: in an open session holding the fragment \<open>hello\<close>
  and one archived frame, \<open>onerror\<close> or \<open>onclose\<close> followed by \<open>stopSession\<close>
  returns the empty transcript and no container.
\<close>

theorem channel_terminated_counterexample:
  "bufferRef live_example = ''hello'' \<and>
   capturedAudioChunksRef live_example = [[1 / 2]] \<and>
   isSessionActiveForCallback live_example \<and>
   snd (stopSession (step (OnError ''lost'') live_example))
     = \<lparr> transcript = [], audioBlob = None \<rparr> \<and>
   snd (stopSession (step (OnClose ''gone'') live_example))
     = \<lparr> transcript = [], audioBlob = None \<rparr>"
  by (simp add: live_example_eq session_defs trim_def)

text \<open>
  C1, amended. When the channel of an active session errors or closes, the cleanup
  routine discards the transcript buffer and the archived frames, and a following
  \<open>stopSession\<close> returns the empty transcript and no audio container, whether or not
  React has run its effects in between.
\<close>

theorem channel_terminated_discards:
  "isSessionActiveForCallback s \<Longrightarrow>
     bufferRef (onerror message s) = [] \<and>
     capturedAudioChunksRef (onerror message s) = [] \<and>
     bufferRef (onclose reason s) = [] \<and>
     capturedAudioChunksRef (onclose reason s) = [] \<and>
     snd (stopSession (onerror message s)) = empty_result \<and>
     snd (stopSession (onclose reason s)) = empty_result \<and>
     snd (stopSession (effects (onerror message s))) = empty_result \<and>
     snd (stopSession (effects (onclose reason s))) = empty_result"
  by (simp add: onerror_def onclose_def stop_after_cleanup cleanUpSession_fields)

theorem channel_terminated_discards_witness:
  "isSessionActiveForCallback live_example \<and>
   bufferRef live_example = ''hello'' \<and>
   bufferRef (onerror ''lost'' live_example) = [] \<and>
   capturedAudioChunksRef (onclose ''gone'' live_example) = [] \<and>
   snd (stopSession (onerror ''lost'' live_example)) = empty_result \<and>
   snd (stopSession (effects (onclose ''gone'' live_example))) = empty_result"
proof -
  have h: "isSessionActiveForCallback live_example"
    by (simp add: live_example_eq)
  have b: "bufferRef live_example = ''hello''"
    by (simp add: live_example_eq)
  show ?thesis
    using h b channel_terminated_discards [OF h, of "''lost''" "''gone''"] by simp
qed

text \<open>
  C8, as the claim states it, fails for the Connecting state: a second \<open>startSession\<close>
  issued after the first one and before \<open>onopen\<close> is not rejected. It empties the
  archive, asks for the device again and opens a second channel.
\<close>

theorem start_while_connecting_counterexample:
  "connectCalls connecting_example = 1 \<and>
   sessionPromise connecting_example = Pending \<and>
   \<not> isSessionActive connecting_example \<and>
   capturedAudioChunksRef connecting_example = [[1 / 2]] \<and>
   connectCalls (startSession (Some ''key'') None connecting_example) = 2 \<and>
   getUserMediaCalls (startSession (Some ''key'') None connecting_example) = 2 \<and>
   capturedAudioChunksRef (startSession (Some ''key'') None connecting_example) = []"
  by (simp add: connecting_example_eq session_defs)

text \<open>
  C8, amended. \<open>startSession\<close> is rejected whenever the active flag read by its guard
  (line 150) is set, which covers the Active and the Paused state: it returns with the
  whole state unchanged, so no session is created, no device acquired and no channel
  opened. While the flag is not set, which includes the Connecting state, a start with
  an API key is not rejected: it empties the transcript buffer and the archive, asks for
  the device and, having got it, opens a channel.
\<close>

theorem start_rejected_when_active:
  "(isSessionActiveForCallback s \<longrightarrow> startSession apiKey deviceError s = s) \<and>
   (\<not> isSessionActiveForCallback s \<and> k \<noteq> [] \<longrightarrow>
      getUserMediaCalls (startSession (Some k) None s) = getUserMediaCalls s + 1 \<and>
      connectCalls (startSession (Some k) None s) = connectCalls s + 1 \<and>
      sessionPromise (startSession (Some k) None s) = Pending \<and>
      bufferRef (startSession (Some k) None s) = [] \<and>
      capturedAudioChunksRef (startSession (Some k) None s) = [])"
  by (simp add: startSession_def)

theorem start_rejected_when_active_witness:
  "isSessionActiveForCallback live_example \<and>
   startSession (Some ''key'') None live_example = live_example \<and>
   isSessionActiveForCallback (effects (pauseSession live_example)) \<and>
   isPausedForCallback (effects (pauseSession live_example)) \<and>
   startSession (Some ''key'') None (effects (pauseSession live_example))
     = effects (pauseSession live_example) \<and>
   \<not> isSessionActiveForCallback connecting_example \<and> ''key'' \<noteq> [] \<and>
   connectCalls (startSession (Some ''key'') None connecting_example) = 2"
proof -
  have h: "isSessionActiveForCallback live_example"
    by (simp add: live_example_eq)
  have p: "isSessionActiveForCallback (effects (pauseSession live_example))"
    by (simp add: live_example_eq pauseSession_def effects_def)
  have q: "isPausedForCallback (effects (pauseSession live_example))"
    by (simp add: live_example_eq pauseSession_def effects_def)
  have c: "\<not> isSessionActiveForCallback connecting_example \<and>
      connectCalls connecting_example = 1"
    by (simp add: connecting_example_eq)
  show ?thesis
    using h p q c
      start_rejected_when_active [of live_example "Some ''key''" None "''key''"]
      start_rejected_when_active
        [of "effects (pauseSession live_example)" "Some ''key''" None "''key''"]
      start_rejected_when_active [of connecting_example "Some ''key''" None "''key''"]
    by simp
qed

subsection \<open>Archiving and sending of audio frames\<close>

lemma open_example_eq:
  "open_example =
     \<lparr> status = ''Connection opened. Listening...'', error = [],
       isSessionActive = True, isPaused = False,
       isSessionActiveForCallback = True, isPausedForCallback = False,
       sessionPromiseRef = True, sessionPromise = Fulfilled, thenQueue = [],
       inputAudioContextRef = True, scriptProcessorNodeRef = True,
       sourceNodeRef = True, streamRef = True, bufferRef = [],
       lastMessageTimeRef = None, capturedAudioChunksRef = [], updates = [[]],
       sent = [], getUserMediaCalls = 1, connectCalls = 1, closeCalls = 0,
       closeQueued = 0 \<rparr>"
  by (simp add: open_example_def session_defs)

lemma fold_send_if_live_blocked:
  "\<not> (isSessionActiveForCallback s \<and> \<not> isPausedForCallback s) \<Longrightarrow>
     sent (fold send_if_live q s) = sent s"
  by (induction q arbitrary: s) (auto simp: send_if_live_def)

lemma fold_send_if_live_fields:
  "bufferRef (fold send_if_live q s) = bufferRef s"
  "updates (fold send_if_live q s) = updates s"
  by (induction q arbitrary: s) (auto simp: send_if_live_def)

lemma sent_step:
  "sent (step e s) = sent s \<or> (isSessionActiveForCallback s \<and> \<not> isPausedForCallback s)"
proof (cases e)
  case PromiseFulfilled
  then show ?thesis
    using fold_send_if_live_blocked
      [of "s\<lparr> sessionPromise := Fulfilled, thenQueue := [],
             closeCalls := closeCalls s + closeQueued s, closeQueued := 0 \<rparr>" "thenQueue s"]
    by (auto simp: promiseFulfilled_def)
next
  case (AudioProcess f)
  then show ?thesis
    by (auto simp: onaudioprocess_def send_if_live_def Let_def split: promise.splits)
qed (auto simp: session_defs split: option.splits promise.splits)

lemma archive_onaudioprocess:
  "capturedAudioChunksRef (onaudioprocess f s) = capturedAudioChunksRef s @ [f]"
  by (simp add: onaudioprocess_def send_if_live_def Let_def split: promise.splits)

lemma pause_scenario:
  assumes "sessionPromise s = Fulfilled" "isSessionActive s" "isSessionActiveForCallback s"
    "\<not> isPausedForCallback s"
  shows "capturedAudioChunksRef (run (pause_scenario_events f1 f2 f3 f4 f5) s)
         = capturedAudioChunksRef s @ [f1, f2, f3, f4, f5]"
    and "sent (run (pause_scenario_events f1 f2 f3 f4 f5) s)
         = sent s @ [createBlob f1, createBlob f2]"
    and "audioBlob (snd (stopSession (run (pause_scenario_events f1 f2 f3 f4 f5) s)))
         = Some (createWavBlob (concat (capturedAudioChunksRef s) @ f1 @ f2 @ f3 @ f4 @ f5)
                   SAMPLE_RATE)"
    and "capturedAudioChunksRef (fst (stopSession (run (pause_scenario_events f1 f2 f3 f4 f5) s)))
         = []"
    and "capturedAudioChunksRef (run (pause_scenario_events f1 f2 f3 f4 f5 @ [StopSession]) s)
         = []"
  using assms
  by (simp_all add: pause_scenario_events_def run_def onaudioprocess_def send_if_live_def
      pauseSession_def effects_def stopSession_def cleanUpSession_fields Let_def)

section \<open>Properties of the transcript\<close>

subsection \<open>Live updates against the returned transcript\<close>

lemma delivered_cleanUp: "delivered (cleanUpSession s)"
  by (simp add: delivered_def cleanUpSession_fields)

lemma delivered_step:
  assumes "delivered s"
  shows "delivered (step e s)"
proof (cases e)
  case (StartSession k d)
  with assms show ?thesis
    by (auto simp: delivered_def startSession_def cleanUpSession_fields Let_def
        split: option.splits)
next
  case (OnClose r)
  with assms show ?thesis
    by (auto simp: delivered_def onclose_def cleanUpSession_fields)
next
  case (OnError m)
  then show ?thesis
    by (simp add: onerror_def delivered_cleanUp)
next
  case (OnMessage now msg)
  with assms show ?thesis
    by (auto simp: delivered_def onmessage_def Let_def split: option.splits)
next
  case PromiseFulfilled
  with assms show ?thesis
    by (auto simp: delivered_def promiseFulfilled_def fold_send_if_live_fields)
next
  case (PromiseRejected m)
  with assms show ?thesis
    by (auto simp: delivered_def promiseRejected_def cleanUpSession_fields Let_def)
next
  case (AudioProcess f)
  with assms show ?thesis
    by (auto simp: delivered_def onaudioprocess_def send_if_live_def Let_def
        split: promise.splits)
next
  case StopSession
  with assms show ?thesis
    by (auto simp: delivered_def stopSession_def cleanUpSession_fields Let_def)
next
  case OnOpen
  with assms show ?thesis
    by (simp add: delivered_def onopen_def)
next
  case PauseSession
  with assms show ?thesis
    by (simp add: delivered_def pauseSession_def)
next
  case ResumeSession
  with assms show ?thesis
    by (simp add: delivered_def resumeSession_def)
next
  case Effects
  with assms show ?thesis
    by (simp add: delivered_def effects_def)
next
  case Unmount
  with assms show ?thesis
    by (auto simp: delivered_def unmount_def cleanUpSession_fields)
qed

lemma delivered_run: "delivered s \<Longrightarrow> delivered (run evs s)"
  unfolding run_def by (induction evs arbitrary: s) (auto simp: delivered_step)

lemma delivered_initial: "delivered initial"
  by (simp add: delivered_def initial_def)

lemma split_newline_nonempty: "split_newline s \<noteq> []"
  by (induction s) (auto split: list.splits)

lemma hd_split_newline: "hd (split_newline s) = takeWhile (\<lambda>x. x \<noteq> CHR 0x0A) s"
  by (induction s) (auto split: list.splits simp: split_newline_nonempty)

lemma is_lower_not_space: "is_lower c \<Longrightarrow> \<not> is_space c"
  by (auto simp: is_lower_def is_space_def)

lemma is_lower_not_newline: "is_lower c \<Longrightarrow> c \<noteq> CHR 0x0A"
  by (auto simp: is_lower_def)

lemma trim_Cons:
  "\<not> is_space c \<Longrightarrow> trim (c # rest) = c # rev (dropWhile is_space (rev rest))"
  by (simp add: trim_def dropWhile_append3)

lemma rev_dropWhile_takeWhile:
  "rev (dropWhile P (rev xs)) @ rev (takeWhile P (rev xs)) = xs"
proof -
  have "rev (takeWhile P (rev xs) @ dropWhile P (rev xs)) = xs"
    by (simp only: takeWhile_dropWhile_id rev_rev_ident)
  then show ?thesis
    by (simp only: rev_append)
qed

lemma trim_decomp:
  "\<exists>pre post. s = pre @ trim s @ post \<and> list_all is_space pre \<and> list_all is_space post"
proof -
  let ?mid = "dropWhile is_space s"
  let ?pre = "takeWhile is_space s"
  let ?post = "rev (takeWhile is_space (rev ?mid))"
  have m: "?mid = trim s @ ?post"
    unfolding trim_def by (rule rev_dropWhile_takeWhile [symmetric])
  have "s = ?pre @ ?mid"
    by simp
  then have "s = ?pre @ trim s @ ?post"
    using m by simp
  moreover have "list_all is_space ?pre"
    by (auto simp: list_all_iff dest: set_takeWhileD)
  moreover have "list_all is_space ?post"
    by (auto simp: list_all_iff dest: set_takeWhileD)
  ultimately show ?thesis
    by blast
qed

lemma last_dropWhile: "dropWhile P xs \<noteq> [] \<Longrightarrow> last (dropWhile P xs) = last xs"
proof -
  assume a: "dropWhile P xs \<noteq> []"
  have "last xs = last (takeWhile P xs @ dropWhile P xs)"
    by simp
  also have "\<dots> = last (dropWhile P xs)"
    using a by (rule last_appendR)
  finally show ?thesis
    by simp
qed

lemma trim_ends:
  assumes "trim s \<noteq> []"
  shows "\<not> is_space (hd (trim s))" and "\<not> is_space (last (trim s))"
proof -
  let ?mid = "dropWhile is_space s"
  let ?x = "dropWhile is_space (rev ?mid)"
  have x: "?x \<noteq> []"
    using assms by (simp add: trim_def)
  then have mid: "?mid \<noteq> []"
    by (metis dropWhile.simps(1) rev.simps(1))
  have "last (trim s) = hd ?x"
    using x by (simp add: trim_def last_rev)
  then show "\<not> is_space (last (trim s))"
    using x hd_dropWhile [of is_space "rev ?mid"] by simp
  have "hd (trim s) = last ?x"
    using x by (simp add: trim_def hd_rev)
  also have "\<dots> = last (rev ?mid)"
    using x by (rule last_dropWhile)
  also have "\<dots> = hd ?mid"
    using mid by (simp add: last_rev)
  finally show "\<not> is_space (hd (trim s))"
    using mid hd_dropWhile [of is_space s] by simp
qed

lemma lowercase_letter_facts:
  assumes "lowercase_letter c"
  shows "\<not> is_space c" and "c \<noteq> CHR 0x0A" and "toUpperCase c \<noteq> [of_char c]"
  using assms
  by (auto simp: lowercase_letter_def is_space_def toUpperCase_def Let_def split: if_splits)

lemma toUpperCase_lower: "is_lower c \<Longrightarrow> toUpperCase c = [of_char c - 32]"
  by (simp add: toUpperCase_def is_lower_def)

lemma hd_capitalizedLines:
  "c \<noteq> CHR 0x0A \<Longrightarrow>
     hd (capitalizedLines (c # rest))
       = toUpperCase c @ map of_char (takeWhile (\<lambda>x. x \<noteq> CHR 0x0A) rest)"
  using hd_split_newline [of "c # rest"] split_newline_nonempty [of "c # rest"]
  by (cases "split_newline (c # rest)")
     (auto simp: capitalizedLines_def capitalize_def simp del: split_newline.simps)

lemma padded_example_eq:
  "isSessionActiveForCallback padded_example \<and> bufferRef padded_example = ''  spine ''"
  by (simp add: padded_example_def session_defs text_defs)

lemma trailing_example_eq:
  "isSessionActiveForCallback trailing_example \<and> bufferRef trailing_example = ''hello '' \<and>
   updates trailing_example = [[], [map of_char ''Hello '']]"
  by (simp add: trailing_example_def session_defs text_defs)

text \<open>
  C10. For every session reached from the initial state that \<open>stopSession\<close> finds
  active, the transcript returned is the stored buffer without its leading and trailing
  whitespace: the buffer is the transcript between two runs of whitespace, and the
  transcript, unless empty, neither begins nor ends with whitespace. If the buffer begins
  with a lowercase letter \<open>c\<close> (so that its first line does), the returned transcript
  begins with \<open>c\<close> itself, while the latest live update delivered that first line with
  \<open>c\<close> replaced by its capital, which differs from \<open>c\<close>; for \<open>c\<close> in \<open>a-z\<close> the
  capital is the code unit 32 below.
\<close>

theorem stop_transcript_not_capitalized:
  assumes "isSessionActiveForCallback (run evs initial)"
  shows "(\<exists>pre post.
            bufferRef (run evs initial)
              = pre @ transcript (snd (stopSession (run evs initial))) @ post \<and>
            list_all is_space pre \<and> list_all is_space post) \<and>
         (transcript (snd (stopSession (run evs initial))) \<noteq> [] \<longrightarrow>
            \<not> is_space (hd (transcript (snd (stopSession (run evs initial))))) \<and>
            \<not> is_space (last (transcript (snd (stopSession (run evs initial)))))) \<and>
         (bufferRef (run evs initial) = c # rest \<and> lowercase_letter c \<longrightarrow>
            hd (transcript (snd (stopSession (run evs initial)))) = c \<and>
            updates (run evs initial) \<noteq> [] \<and>
            hd (last (updates (run evs initial)))
              = toUpperCase c @ map of_char (takeWhile (\<lambda>x. x \<noteq> CHR 0x0A) rest) \<and>
            toUpperCase c \<noteq> [of_char c] \<and>
            (is_lower c \<longrightarrow> toUpperCase c = [of_char c - 32]))"
proof -
  have d: "delivered (run evs initial)"
    by (simp add: delivered_run delivered_initial)
  have t: "transcript (snd (stopSession (run evs initial))) = trim (bufferRef (run evs initial))"
    using assms by (simp add: stopSession_def Let_def)
  have p1: "\<exists>pre post.
      bufferRef (run evs initial) = pre @ trim (bufferRef (run evs initial)) @ post \<and>
      list_all is_space pre \<and> list_all is_space post"
    by (rule trim_decomp)
  have p2: "trim (bufferRef (run evs initial)) \<noteq> [] \<longrightarrow>
      \<not> is_space (hd (trim (bufferRef (run evs initial)))) \<and>
      \<not> is_space (last (trim (bufferRef (run evs initial))))"
    using trim_ends by blast
  have p3: "bufferRef (run evs initial) = c # rest \<and> lowercase_letter c \<longrightarrow>
      hd (trim (bufferRef (run evs initial))) = c \<and>
      updates (run evs initial) \<noteq> [] \<and>
      hd (last (updates (run evs initial)))
        = toUpperCase c @ map of_char (takeWhile (\<lambda>x. x \<noteq> CHR 0x0A) rest) \<and>
      toUpperCase c \<noteq> [of_char c] \<and>
      (is_lower c \<longrightarrow> toUpperCase c = [of_char c - 32])"
    using d
    by (auto simp: delivered_def hd_capitalizedLines trim_Cons lowercase_letter_facts
        toUpperCase_lower)
  show ?thesis
    unfolding t using p1 p2 p3 by blast
qed

theorem stop_transcript_not_capitalized_witness:
  "isSessionActiveForCallback padded_example \<and>
   bufferRef padded_example = ''  spine '' \<and>
   transcript (snd (stopSession padded_example)) = ''spine'' \<and>
   \<not> is_space (hd (transcript (snd (stopSession padded_example)))) \<and>
   \<not> is_space (last (transcript (snd (stopSession padded_example)))) \<and>
   isSessionActiveForCallback trailing_example \<and>
   bufferRef trailing_example = CHR ''h'' # ''ello '' \<and>
   lowercase_letter CHR ''h'' \<and> is_lower CHR ''h'' \<and>
   transcript (snd (stopSession trailing_example)) = ''hello'' \<and>
   hd (transcript (snd (stopSession trailing_example))) = CHR ''h'' \<and>
   hd (last (updates trailing_example)) = map of_char ''Hello '' \<and>
   toUpperCase CHR ''h'' = [72]"
proof -
  have a: "isSessionActiveForCallback (run [StartSession (Some ''key'') None, OnOpen,
      PromiseFulfilled, Effects, OnMessage 1000 (Some [Some ''  spine ''])] initial)"
    using padded_example_eq by (simp add: padded_example_def)
  have b: "isSessionActiveForCallback (run [StartSession (Some ''key'') None, OnOpen,
      PromiseFulfilled, Effects, OnMessage 1000 (Some [Some ''hello ''])] initial)"
    using trailing_example_eq by (simp add: trailing_example_def)
  have l: "lowercase_letter CHR ''h'' \<and> is_lower CHR ''h''"
    by (simp add: lowercase_letter_def is_lower_def)
  have e: "transcript (snd (stopSession padded_example)) = ''spine'' \<and>
      transcript (snd (stopSession trailing_example)) = ''hello''"
    using padded_example_eq trailing_example_eq
    by (simp add: stopSession_def Let_def trim_def is_space_def)
  note w1 = stop_transcript_not_capitalized
    [OF a, of "CHR '' ''" "'' spine ''", folded padded_example_def]
  note w2 = stop_transcript_not_capitalized
    [OF b, of "CHR ''h''" "''ello ''", folded trailing_example_def]
  have c1: "\<not> is_space (hd (transcript (snd (stopSession padded_example)))) \<and>
      \<not> is_space (last (transcript (snd (stopSession padded_example))))"
    using w1 [THEN conjunct2, THEN conjunct1] e by simp
  have pr: "bufferRef trailing_example = CHR ''h'' # ''ello '' \<and> lowercase_letter CHR ''h''"
    using trailing_example_eq l by simp
  have c2: "hd (transcript (snd (stopSession trailing_example))) = CHR ''h''"
    using w2 [THEN conjunct2, THEN conjunct2, THEN mp, OF pr] by (rule conjunct1)
  have u: "toUpperCase CHR ''h'' = [72]"
    by (simp add: toUpperCase_def)
  have v: "hd (last (updates trailing_example)) = map of_char ''Hello ''"
    by (simp add: trailing_example_eq)
  show ?thesis
    using padded_example_eq pr l e c1 c2 u v trailing_example_eq by simp
qed

subsection \<open>The separator heuristic\<close>

lemma onmessage_time: "lastMessageTimeRef (onmessage now msg s) = Some now"
  by (simp add: onmessage_def Let_def split: option.splits)

lemma onmessage_buffer:
  "responseText parts \<noteq> [] \<Longrightarrow>
     bufferRef (onmessage now (Some parts) s) =
       formattedText (bufferRef s @
         (if timeSinceLastMessage (lastMessageTimeRef s) now > 300 \<and> bufferRef s \<noteq> []
             \<and> \<not> ends_with_space (bufferRef s) \<and> \<not> starts_with_space (responseText parts)
          then '' '' else []) @ responseText parts)"
  by (simp add: onmessage_def separator_def Let_def)

lemma hello_world_gap:
  "bufferRef s = [] \<Longrightarrow> lastMessageTimeRef s = None \<Longrightarrow> t \<noteq> 0 \<Longrightarrow>
     bufferRef (run [OnMessage t (Some [Some ''hello'']),
                     OnMessage (t + 500) (Some [Some ''world''])] s) = ''hello world''"
  by (simp add: run_def onmessage_def Let_def text_defs)

lemma hello_world_nogap:
  "bufferRef s = [] \<Longrightarrow> lastMessageTimeRef s = None \<Longrightarrow> t \<noteq> 0 \<Longrightarrow>
     bufferRef (run [OnMessage t (Some [Some ''hello'']),
                     OnMessage (t + 50) (Some [Some ''world''])] s) = ''helloworld''"
  by (simp add: run_def onmessage_def Let_def text_defs)

text \<open>
  C6, as the claim states it, fails: the gap is not measured from the previous text
  fragment. \<open>hello\<close> arrives at 1000 ms and \<open>world\<close> at 1500 ms, 500 ms later, with
  no boundary whitespace on either; a server message without text at 1400 ms in between
  resets the clock, and the two fragments are joined without a space.
\<close>

theorem separator_gap_counterexample:
  "bufferRef (run [OnMessage 1000 (Some [Some ''hello'']), OnMessage 1400 None,
                   OnMessage 1500 (Some [Some ''world''])] open_example) = ''helloworld'' \<and>
   (1500 :: int) - 1000 > 300 \<and>
   \<not> ends_with_space ''hello'' \<and> \<not> starts_with_space ''world''"
  by (simp add: open_example_eq session_defs text_defs)

text \<open>
  C6, amended. Every server message, with or without text, stamps
  \<open>lastMessageTimeRef\<close>. The gap of a message is zero when no message came before it
  in the session, and otherwise the time since the previous message (read from a
  nonzero clock). A message carrying the non-empty text \<open>x\<close> makes the buffer the
  formatted form of the old buffer, followed by a single space exactly when the gap
  exceeds 300 ms and the buffer is non-empty and does not end in whitespace and \<open>x\<close>
  does not start with whitespace, followed by \<open>x\<close>. In a fresh session, \<open>hello\<close> at
  clock reading \<open>t\<close> and \<open>world\<close> in the next message at \<open>t + 500\<close> give
  \<open>hello world\<close>; at \<open>t\<close> and \<open>t + 50\<close> they give \<open>helloworld\<close>.
\<close>

theorem separator_rule:
  "lastMessageTimeRef (onmessage now msg s) = Some now \<and>
   timeSinceLastMessage None now = 0 \<and>
   (t \<noteq> 0 \<longrightarrow> timeSinceLastMessage (Some t) now = now - t) \<and>
   (responseText parts \<noteq> [] \<longrightarrow>
      bufferRef (onmessage now (Some parts) s) =
        formattedText (bufferRef s @
          (if timeSinceLastMessage (lastMessageTimeRef s) now > 300 \<and> bufferRef s \<noteq> []
              \<and> \<not> ends_with_space (bufferRef s) \<and> \<not> starts_with_space (responseText parts)
           then '' '' else []) @ responseText parts)) \<and>
   (bufferRef s = [] \<and> lastMessageTimeRef s = None \<and> t \<noteq> 0 \<longrightarrow>
      bufferRef (run [OnMessage t (Some [Some ''hello'']),
                      OnMessage (t + 500) (Some [Some ''world''])] s) = ''hello world'' \<and>
      bufferRef (run [OnMessage t (Some [Some ''hello'']),
                      OnMessage (t + 50) (Some [Some ''world''])] s) = ''helloworld'')"
  using onmessage_time onmessage_buffer hello_world_gap hello_world_nogap
  by (simp add: timeSinceLastMessage_def)

theorem separator_rule_witness:
  "bufferRef open_example = [] \<and> lastMessageTimeRef open_example = None \<and> (1000 :: int) \<noteq> 0 \<and>
   responseText [Some ''world''] \<noteq> [] \<and>
   timeSinceLastMessage (Some 1000) 1500 = 500 \<and>
   bufferRef (onmessage 1500 (Some [Some ''world'']) open_example) = ''world'' \<and>
   bufferRef (run [OnMessage 1000 (Some [Some ''hello'']),
                   OnMessage (1000 + 500) (Some [Some ''world''])] open_example)
     = ''hello world'' \<and>
   bufferRef (run [OnMessage 1000 (Some [Some ''hello'']),
                   OnMessage (1000 + 50) (Some [Some ''world''])] open_example)
     = ''helloworld''"
proof -
  have h: "bufferRef open_example = [] \<and> lastMessageTimeRef open_example = None"
    by (simp add: open_example_eq)
  have r: "responseText [Some ''world''] = ''world''"
    by (simp add: responseText_def List.map_filter_def)
  have f: "formattedText ''world'' = ''world''"
    by (simp add: text_defs)
  show ?thesis
    using h r f separator_rule [of 1500 None open_example 1000 "[Some ''world'']"]
    by simp
qed

subsection \<open>Repeated formatting\<close>

text \<open>
  Three of the four replacements reach their fixed point in one pass, and inserting
  spaces never brings two characters together. So formatting is stable on every buffer
  in which no two punctuation marks are adjacent.
\<close>

lemma replace_pair_id: "no_pair P Q s \<Longrightarrow> replace_pair P Q s = s"
  by (induction P Q s rule: replace_pair.induct) auto

lemma replace_pair_hd:
  "replace_pair P Q (a # s) = a # tl (replace_pair P Q (a # s))"
  by (cases s) auto

lemma no_pair_replace_pair_other:
  assumes "\<not> P' CHR '' ''" "\<not> Q' CHR '' ''"
  shows "no_pair P' Q' s \<Longrightarrow> no_pair P' Q' (replace_pair P Q s)"
proof (induction P Q s rule: replace_pair.induct)
  case (1 P Q a b rest)
  show ?case
  proof (cases "P a \<and> Q b")
    case True
    have "no_pair P' Q' rest" using 1(3) by (cases rest) auto
    then have r: "no_pair P' Q' (replace_pair P Q rest)" using True 1(1) by simp
    have "no_pair P' Q' (b # replace_pair P Q rest)"
    proof (cases rest)
      case Nil
      then show ?thesis by simp
    next
      case (Cons c rest')
      then have "\<not> (P' b \<and> Q' c)" using 1(3) by simp
      moreover have "replace_pair P Q rest = c # tl (replace_pair P Q rest)"
        using Cons replace_pair_hd by simp
      ultimately show ?thesis using r
        by (metis no_pair.simps(1))
    qed
    then show ?thesis using True assms by simp
  next
    case False
    have "no_pair P' Q' (b # rest)" using 1(3) by simp
    then have r: "no_pair P' Q' (replace_pair P Q (b # rest))" using False 1(2) by simp
    have "replace_pair P Q (b # rest) = b # tl (replace_pair P Q (b # rest))"
      by (rule replace_pair_hd)
    moreover have "\<not> (P' a \<and> Q' b)" using 1(3) by simp
    ultimately have "no_pair P' Q' (a # replace_pair P Q (b # rest))"
      using r by (metis no_pair.simps(1))
    then show ?thesis using False by auto
  qed
qed auto

lemma no_pair_replace_pair_self:
  assumes "\<not> P CHR '' ''" "\<not> Q CHR '' ''"
  shows "no_pair P (\<lambda>c. Q c \<and> P c) s \<Longrightarrow> no_pair P Q (replace_pair P Q s)"
  using assms
proof (induction P Q s rule: replace_pair.induct)
  case (1 P Q a b rest)
  show ?case
  proof (cases "P a \<and> Q b")
    case True
    then have nb: "\<not> P b" using 1(3) by auto
    have "no_pair P (\<lambda>c. Q c \<and> P c) rest" using 1(3) by (cases rest) auto
    then have r: "no_pair P Q (replace_pair P Q rest)" using True 1(1) 1(4) 1(5) by simp
    have "no_pair P Q (b # replace_pair P Q rest)"
      using nb r by (cases "replace_pair P Q rest") auto
    then show ?thesis using True 1(4) 1(5) by simp
  next
    case False
    have "no_pair P (\<lambda>c. Q c \<and> P c) (b # rest)" using 1(3) by simp
    then have r: "no_pair P Q (replace_pair P Q (b # rest))" using False 1(2) 1(4) 1(5) by simp
    have "replace_pair P Q (b # rest) = b # tl (replace_pair P Q (b # rest))"
      by (rule replace_pair_hd)
    then have "no_pair P Q (a # replace_pair P Q (b # rest))"
      using r False by (metis no_pair.simps(1))
    then show ?thesis using False by auto
  qed
qed auto

lemma no_pair_disjoint: "(\<And>c. Q c \<Longrightarrow> \<not> P c) \<Longrightarrow> no_pair P (\<lambda>c. Q c \<and> P c) s"
  by (induction s rule: induct_list012) auto

lemma no_pair_weaken: "no_pair P Q s \<Longrightarrow> (\<And>c. Q' c \<Longrightarrow> Q c) \<Longrightarrow> no_pair P Q' s"
  by (induction s rule: induct_list012) auto

lemma escaped_hd:
  "replace_escaped_newline (a # s) \<noteq> [] \<and>
   (hd (replace_escaped_newline (a # s)) = a \<or> hd (replace_escaped_newline (a # s)) = CHR 0x0A)"
  by (cases s) auto

lemma no_pair_escaped_self:
  "no_pair (\<lambda>c. c = CHR 0x5C) (\<lambda>c. c = CHR ''n'') (replace_escaped_newline s)"
proof (induction s rule: replace_escaped_newline.induct)
  case (1 a b rest)
  show ?case
  proof (cases "a = CHR 0x5C \<and> b = CHR ''n''")
    case True
    then show ?thesis
      using 1(1) by (cases "replace_escaped_newline rest") auto
  next
    case False
    have r: "no_pair (\<lambda>c. c = CHR 0x5C) (\<lambda>c. c = CHR ''n'') (replace_escaped_newline (b # rest))"
      using False 1(2) by simp
    obtain h t where ht: "replace_escaped_newline (b # rest) = h # t" "h = b \<or> h = CHR 0x0A"
      using escaped_hd [of b rest] by (cases "replace_escaped_newline (b # rest)") auto
    then have "\<not> (a = CHR 0x5C \<and> h = CHR ''n'')" using False by auto
    then show ?thesis using False r ht by auto
  qed
qed auto

lemma no_pair_escaped_other:
  assumes "\<not> P' (CHR 0x0A)" "\<not> Q' (CHR 0x0A)"
  shows "no_pair P' Q' s \<Longrightarrow> no_pair P' Q' (replace_escaped_newline s)"
proof (induction s rule: replace_escaped_newline.induct)
  case (1 a b rest)
  show ?case
  proof (cases "a = CHR 0x5C \<and> b = CHR ''n''")
    case True
    have "no_pair P' Q' rest" using 1(3) by (cases rest) auto
    then have r: "no_pair P' Q' (replace_escaped_newline rest)" using True 1(1) by simp
    then show ?thesis using True assms by (cases "replace_escaped_newline rest") auto
  next
    case False
    have "no_pair P' Q' (b # rest)" using 1(3) by simp
    then have r: "no_pair P' Q' (replace_escaped_newline (b # rest))" using False 1(2) by simp
    obtain h t where ht: "replace_escaped_newline (b # rest) = h # t" "h = b \<or> h = CHR 0x0A"
      using escaped_hd [of b rest] by (cases "replace_escaped_newline (b # rest)") auto
    have "\<not> (P' a \<and> Q' b)" using 1(3) by simp
    then have "\<not> (P' a \<and> Q' h)" using ht assms by auto
    then show ?thesis using False r ht by auto
  qed
qed auto

lemma escaped_id:
  "no_pair (\<lambda>c. c = CHR 0x5C) (\<lambda>c. c = CHR ''n'') s \<Longrightarrow> replace_escaped_newline s = s"
  by (induction s rule: replace_escaped_newline.induct) auto

lemma class_facts:
  "\<not> is_punct CHR '' ''" "\<not> non_space CHR '' ''" "\<not> is_lower CHR '' ''" "\<not> is_upper CHR '' ''"
  "\<not> is_letter CHR '' ''" "\<not> is_digit CHR '' ''" "\<not> is_punct (CHR 0x0A)"
  "is_upper c \<Longrightarrow> \<not> is_lower c" "is_digit c \<Longrightarrow> \<not> is_letter c"
  by (auto simp: is_punct_def non_space_def is_space_def is_lower_def is_upper_def is_letter_def is_digit_def)

lemma formattedText_idempotent_without_adjacent_punct:
  assumes "no_pair is_punct is_punct b"
  shows "formattedText (formattedText b) = formattedText b"
proof -
  let ?bs = "\<lambda>c. c = CHR 0x5C" and ?n = "\<lambda>c. c = CHR ''n''"
  let ?a = "replace_escaped_newline b"
  let ?b = "replace_pair is_lower is_upper ?a"
  let ?c = "replace_pair is_punct non_space ?b"
  let ?d = "replace_pair is_letter is_digit ?c"
  have a1: "no_pair ?bs ?n ?a"
    by (rule no_pair_escaped_self)
  have a2: "no_pair is_punct is_punct ?a"
    by (rule no_pair_escaped_other [OF _ _ assms]) (simp_all add: class_facts)
  have b1: "no_pair ?bs ?n ?b"
    by (rule no_pair_replace_pair_other [OF _ _ a1]) simp_all
  have b2: "no_pair is_punct is_punct ?b"
    by (rule no_pair_replace_pair_other [OF _ _ a2]) (simp_all add: class_facts)
  have b3: "no_pair is_lower is_upper ?b"
    by (rule no_pair_replace_pair_self [OF _ _ no_pair_disjoint]) (simp_all add: class_facts)
  have c1: "no_pair ?bs ?n ?c"
    by (rule no_pair_replace_pair_other [OF _ _ b1]) simp_all
  have c3: "no_pair is_lower is_upper ?c"
    by (rule no_pair_replace_pair_other [OF _ _ b3]) (simp_all add: class_facts)
  have b4: "no_pair is_punct (\<lambda>c. non_space c \<and> is_punct c) ?b"
    using b2 by (rule no_pair_weaken) simp
  have c4: "no_pair is_punct non_space ?c"
    by (rule no_pair_replace_pair_self [OF _ _ b4]) (simp_all add: class_facts)
  have d1: "no_pair ?bs ?n ?d"
    by (rule no_pair_replace_pair_other [OF _ _ c1]) simp_all
  have d3: "no_pair is_lower is_upper ?d"
    by (rule no_pair_replace_pair_other [OF _ _ c3]) (simp_all add: class_facts)
  have d4: "no_pair is_punct non_space ?d"
    by (rule no_pair_replace_pair_other [OF _ _ c4]) (simp_all add: class_facts)
  have d5: "no_pair is_letter is_digit ?d"
    by (rule no_pair_replace_pair_self [OF _ _ no_pair_disjoint]) (simp_all add: class_facts)
  have "formattedText ?d = ?d"
    unfolding formattedText_def
    by (simp only: escaped_id [OF d1] replace_pair_id [OF d3] replace_pair_id [OF d4]
        replace_pair_id [OF d5])
  then show ?thesis
    by (simp add: formattedText_def)
qed

text \<open>
  C2 does not hold of the code. The third replacement consumes the character that follows
  a punctuation mark, so in a run of punctuation marks every second one is skipped:
  \<open>...\<close> is formatted to \<open>. ..\<close>, and formatting that again gives \<open>. . .\<close>. The
  hook stores the formatted text back into the buffer and formats the whole buffer on
  every message, so lines already delivered change: after \<open>Wait...\<close> the update is
  \<open>Wait. ..\<close>, and after a further fragment it is \<open>Wait. . . ok\<close>.
\<close>

theorem formattedText_not_idempotent:
  "formattedText ''...'' = ''. ..'' \<and>
   formattedText (formattedText ''...'') = ''. . .'' \<and>
   updates (run [OnMessage 1000 (Some [Some ''Wait...''])] open_example)
     = [[], [map of_char ''Wait. ..'']] \<and>
   updates (run [OnMessage 1000 (Some [Some ''Wait...'']),
                 OnMessage 1100 (Some [Some '' ok''])] open_example)
     = [[], [map of_char ''Wait. ..''], [map of_char ''Wait. . . ok'']]"
  by (simp add: open_example_eq session_defs text_defs)

section \<open>Properties of the audio encoding\<close>

subsection \<open>Little-endian fields\<close>

lemma le16_split: "(x::nat) mod 256 + 256 * (x div 256 mod 256) = x mod 65536"
proof -
  have "x mod (256 * 256) = 256 * (x div 256 mod 256) + x mod 256"
    by (rule mod_mult2_eq)
  then show ?thesis by simp
qed

lemma le32_split:
  "(x::nat) mod 256 + 256 * (x div 256 mod 256) + 65536 * (x div 65536 mod 256)
     + 16777216 * (x div 16777216 mod 256) = x mod 4294967296"
proof -
  have b: "x mod (65536 * 65536) = 65536 * (x div 65536 mod 65536) + x mod 65536"
    by (rule mod_mult2_eq)
  have c: "x div 65536 div 256 = x div 16777216"
    by (simp add: div_mult2_eq [symmetric])
  show ?thesis
    using le16_split [of x] le16_split [of "x div 65536"] b c by simp
qed

lemma unat_byte: "unat (word_of_nat n :: 8 word) = n mod 256"
  by (simp add: unat_of_nat)

lemma unat_16_bound: "unat (w :: 16 word) < 65536"
  using unsigned_less [of w, where 'a = nat] by simp

lemma length_setters [simp]:
  "length (setUint8 v off x) = length v"
  "length (setUint16 v off x) = length v"
  "length (setUint32 v off x) = length v"
  "length (setInt16 v off y) = length v"
  by (simp_all add: setUint8_def setUint16_def setUint32_def setInt16_def Let_def)

lemma length_writeString [simp]: "length (writeString v off str) = length v"
  by (induction str arbitrary: v off) auto

lemma length_write_pcm [simp]: "length (write_pcm v off xs) = length v"
  by (induction xs arbitrary: v off) auto

lemma length_wav_header [simp]: "length (wav_header d r buf) = length buf"
  by (simp add: wav_header_def Let_def)

lemma getUint32_setUint32:
  "off + 3 < length v \<Longrightarrow> getUint32 (setUint32 v off x) off = x mod 4294967296"
  by (simp add: getUint32_def setUint32_def unat_byte le32_split)

lemma getUint16_setUint16:
  "off + 1 < length v \<Longrightarrow> getUint16 (setUint16 v off x) off = x mod 65536"
  by (simp add: getUint16_def setUint16_def unat_byte le16_split)

lemma nth_setUint8_other: "i \<noteq> off \<Longrightarrow> setUint8 v off x ! i = v ! i"
  by (simp add: setUint8_def)

lemma nth_writeString_other:
  "i < off \<or> off + length str \<le> i \<Longrightarrow> writeString v off str ! i = v ! i"
  by (induction str arbitrary: v off) (auto simp: nth_setUint8_other)

lemma getUint32_setUint32_other:
  "off + 4 \<le> off' \<or> off' + 4 \<le> off \<Longrightarrow>
     getUint32 (setUint32 v off' x) off = getUint32 v off"
  by (auto simp: getUint32_def setUint32_def)

lemma getUint32_setUint16_other:
  "off + 4 \<le> off' \<or> off' + 2 \<le> off \<Longrightarrow>
     getUint32 (setUint16 v off' x) off = getUint32 v off"
  by (auto simp: getUint32_def setUint16_def)

lemma getUint32_writeString_other:
  "off + 4 \<le> off' \<or> off' + length str \<le> off \<Longrightarrow>
     getUint32 (writeString v off' str) off = getUint32 v off"
  by (auto simp: getUint32_def nth_writeString_other)

lemma getUint16_setUint32_other:
  "off + 2 \<le> off' \<or> off' + 4 \<le> off \<Longrightarrow>
     getUint16 (setUint32 v off' x) off = getUint16 v off"
  by (auto simp: getUint16_def setUint32_def)

lemma getUint16_setUint16_other:
  "off + 2 \<le> off' \<or> off' + 2 \<le> off \<Longrightarrow>
     getUint16 (setUint16 v off' x) off = getUint16 v off"
  by (auto simp: getUint16_def setUint16_def)

lemma getUint16_writeString_other:
  "off + 2 \<le> off' \<or> off' + length str \<le> off \<Longrightarrow>
     getUint16 (writeString v off' str) off = getUint16 v off"
  by (auto simp: getUint16_def nth_writeString_other)

lemmas frame_simps = getUint32_setUint32 getUint16_setUint16
  getUint32_setUint32_other getUint32_setUint16_other getUint32_writeString_other
  getUint16_setUint32_other getUint16_setUint16_other getUint16_writeString_other

subsection \<open>The header of the container\<close>

lemma header_dataSize:
  "44 \<le> length buf \<Longrightarrow> getUint32 (wav_header d r buf) 40 = d mod 4294967296"
  by (simp add: wav_header_def Let_def frame_simps del: writeString.simps)

lemma header_byteRate:
  "44 \<le> length buf \<Longrightarrow> getUint32 (wav_header d r buf) 28 = (r * 2) mod 4294967296"
  by (simp add: wav_header_def Let_def frame_simps del: writeString.simps)

lemma header_blockAlign:
  "44 \<le> length buf \<Longrightarrow> getUint16 (wav_header d r buf) 32 = 2"
  by (simp add: wav_header_def Let_def frame_simps del: writeString.simps)

lemma header_bitsPerSample:
  "44 \<le> length buf \<Longrightarrow> getUint16 (wav_header d r buf) 34 = 16"
  by (simp add: wav_header_def Let_def frame_simps del: writeString.simps)

lemma nth_setInt16_other: "i \<noteq> off \<Longrightarrow> i \<noteq> off + 1 \<Longrightarrow> setInt16 v off y ! i = v ! i"
  by (simp add: setInt16_def Let_def)

lemma nth_write_pcm_below: "i < off \<Longrightarrow> write_pcm v off xs ! i = v ! i"
  by (induction xs arbitrary: v off) (auto simp: nth_setInt16_other)

lemma getUint32_write_pcm:
  "off + 4 \<le> off' \<Longrightarrow> getUint32 (write_pcm v off' xs) off = getUint32 v off"
  by (simp add: getUint32_def nth_write_pcm_below)

lemma getUint16_write_pcm:
  "off + 2 \<le> off' \<Longrightarrow> getUint16 (write_pcm v off' xs) off = getUint16 v off"
  by (simp add: getUint16_def nth_write_pcm_below)

lemma wav_fields:
  "getUint32 (blob_bytes (createWavBlob pcm r)) 40 = (2 * length pcm) mod 4294967296"
  "getUint32 (blob_bytes (createWavBlob pcm r)) 28 = (2 * r) mod 4294967296"
  "getUint16 (blob_bytes (createWavBlob pcm r)) 32 = 2"
  "getUint16 (blob_bytes (createWavBlob pcm r)) 34 = 16"
  "length (blob_bytes (createWavBlob pcm r)) = 44 + 2 * length pcm"
  by (simp_all add: createWavBlob_def Let_def getUint32_write_pcm getUint16_write_pcm
      header_dataSize header_byteRate header_blockAlign header_bitsPerSample mult.commute)

text \<open>
  C5, as the claim states it, fails where a value does not fit its 32-bit field: at a
  sample rate of \<open>2 ^ 31\<close> the byte rate \<open>2 ^ 32\<close> is stored as 0, and for
  \<open>2 ^ 31\<close> samples the data-chunk size \<open>2 ^ 32\<close> is stored as 0.
\<close>

theorem wav_header_counterexample:
  "getUint32 (blob_bytes (createWavBlob [0] 2147483648)) 28 = 0 \<and>
   2 * (2147483648 :: nat) \<noteq> 0 \<and>
   getUint32 (blob_bytes (createWavBlob (replicate 2147483648 0) 16000)) 40 = 0 \<and>
   2 * length (replicate 2147483648 (0 :: real)) \<noteq> 0"
  by (simp add: wav_fields)

text \<open>
  C5, amended. For a container built from \<open>n\<close> samples at sample rate \<open>r\<close> with
  \<open>2 n\<close> and \<open>2 r\<close> below \<open>2 ^ 32\<close> (the header fields are unsigned 32-bit and hold
  larger values modulo \<open>2 ^ 32\<close>): the field at offset 40 is \<open>2 n\<close>, the field at
  offset 28 is \<open>2 r\<close>, the fields at offsets 32 and 34 are 2 and 16, and the container
  is \<open>44 + 2 n\<close> bytes long.
\<close>

theorem wav_header_fields:
  assumes "2 * length pcm < 2 ^ 32" and "2 * r < 2 ^ 32"
  shows "getUint32 (blob_bytes (createWavBlob pcm r)) 40 = 2 * length pcm \<and>
         getUint32 (blob_bytes (createWavBlob pcm r)) 28 = 2 * r \<and>
         getUint16 (blob_bytes (createWavBlob pcm r)) 32 = 2 \<and>
         getUint16 (blob_bytes (createWavBlob pcm r)) 34 = 16 \<and>
         length (blob_bytes (createWavBlob pcm r)) = 44 + 2 * length pcm"
  using assms by (simp add: wav_fields)

theorem wav_header_fields_witness:
  "2 * length [1 / 2, - 1 :: real] < (2 :: nat) ^ 32 \<and> 2 * (16000 :: nat) < 2 ^ 32 \<and>
   getUint32 (blob_bytes (createWavBlob [1 / 2, - 1] 16000)) 40 = 4 \<and>
   getUint32 (blob_bytes (createWavBlob [1 / 2, - 1] 16000)) 28 = 32000 \<and>
   getUint16 (blob_bytes (createWavBlob [1 / 2, - 1] 16000)) 32 = 2 \<and>
   getUint16 (blob_bytes (createWavBlob [1 / 2, - 1] 16000)) 34 = 16 \<and>
   length (blob_bytes (createWavBlob [1 / 2, - 1] 16000)) = 48"
proof -
  have a: "2 * length [1 / 2, - 1 :: real] < (2 :: nat) ^ 32"
    by simp
  have b: "2 * (16000 :: nat) < 2 ^ 32"
    by simp
  show ?thesis
    using a b wav_header_fields [OF a b] by simp
qed

subsection \<open>The payload of the container against the wire frame\<close>

lemma getUint16_setInt16:
  assumes "off + 1 < length v"
  shows "getUint16 (setInt16 v off y) off = unat (ToInt16 y)"
proof -
  have "unat (ToInt16 y) mod 65536 = unat (ToInt16 y)"
    using unat_16_bound [of "ToInt16 y"] by simp
  moreover have "unat (ToInt16 y) div 256 mod 256 = unat (ToInt16 y) div 256"
    using unat_16_bound [of "ToInt16 y"] by simp
  ultimately show ?thesis
    using assms le16_split [of "unat (ToInt16 y)"]
    by (simp add: getUint16_def setInt16_def Let_def unat_byte)
qed

lemma getInt16_setInt16:
  "off + 1 < length v \<Longrightarrow> getInt16 (setInt16 v off y) off = sint (ToInt16 y)"
  by (simp add: getInt16_def getUint16_setInt16)

lemma getInt16_write_pcm_below:
  "off + 2 \<le> off' \<Longrightarrow> getInt16 (write_pcm v off' xs) off = getInt16 v off"
  by (simp add: getInt16_def getUint16_write_pcm)

lemma getInt16_write_pcm:
  "off + 2 * length xs \<le> length v \<Longrightarrow> i < length xs \<Longrightarrow>
     getInt16 (write_pcm v off xs) (off + 2 * i) = sint (ToInt16 (wav_sample (xs ! i)))"
proof (induction xs arbitrary: v off i)
  case Nil
  then show ?case by simp
next
  case (Cons x xs)
  show ?case
  proof (cases i)
    case 0
    then show ?thesis
      using Cons.prems by (simp add: getInt16_write_pcm_below getInt16_setInt16)
  next
    case (Suc j)
    have "getInt16 (write_pcm (setInt16 v off (wav_sample x)) (off + 2) xs) (off + 2 + 2 * j)
            = sint (ToInt16 (wav_sample (xs ! j)))"
      using Cons.prems Suc by (intro Cons.IH) simp_all
    then show ?thesis
      using Suc by (simp add: add.assoc)
  qed
qed

lemma wav_payload:
  "i < length pcm \<Longrightarrow>
     getInt16 (blob_bytes (createWavBlob pcm r)) (44 + 2 * i)
       = sint (ToInt16 (wav_sample (pcm ! i)))"
  by (simp add: createWavBlob_def Let_def getInt16_write_pcm)

lemma sint_ToInt16:
  "- 32768 \<le> js_trunc y \<Longrightarrow> js_trunc y < 32768 \<Longrightarrow> sint (ToInt16 y) = js_trunc y"
  by (simp add: ToInt16_def sint_sbintrunc' signed_take_bit_int_eq_self)

lemma wav_sample_nonpos: "- 1 \<le> x \<Longrightarrow> x \<le> 0 \<Longrightarrow> wav_sample x = x * 32768"
  by (auto simp: wav_sample_def Let_def min_def max_def)

lemma wav_sample_pos: "0 < x \<Longrightarrow> x \<le> 1 \<Longrightarrow> wav_sample x = x * 32767"
  by (auto simp: wav_sample_def Let_def min_def max_def)

lemma wav_sample_clamped_high: "1 \<le> x \<Longrightarrow> sint (ToInt16 (wav_sample x)) = 32767"
  by (simp add: wav_sample_def Let_def min_def max_def ToInt16_def js_trunc_def)

lemma wav_sample_clamped_low: "x \<le> - 1 \<Longrightarrow> sint (ToInt16 (wav_sample x)) = - 32768"
  by (simp add: wav_sample_def Let_def min_def max_def ToInt16_def js_trunc_def)

lemma quant_pos_32767:
  assumes "0 < x" "x < 1"
  shows "sint (ToInt16 (x * 32767)) = \<lfloor>x * 32767\<rfloor>"
proof -
  have "0 \<le> \<lfloor>x * 32767\<rfloor>"
    using assms by simp
  moreover have "\<lfloor>x * 32767\<rfloor> < 32768"
    using assms by (simp add: floor_less_iff)
  moreover have "js_trunc (x * 32767) = \<lfloor>x * 32767\<rfloor>"
    using assms by (simp add: js_trunc_def)
  ultimately show ?thesis
    by (simp add: sint_ToInt16)
qed

lemma quant_pos_32768:
  assumes "0 < x" "x < 1"
  shows "sint (ToInt16 (x * 32768)) = \<lfloor>x * 32768\<rfloor>"
proof -
  have "0 \<le> \<lfloor>x * 32768\<rfloor>"
    using assms by simp
  moreover have "\<lfloor>x * 32768\<rfloor> < 32768"
    using assms by (simp add: floor_less_iff)
  moreover have "js_trunc (x * 32768) = \<lfloor>x * 32768\<rfloor>"
    using assms by (simp add: js_trunc_def)
  ultimately show ?thesis
    by (simp add: sint_ToInt16)
qed

lemma floor_scale_close:
  fixes x :: real
  assumes "0 < x" "x < 1"
  shows "\<lfloor>x * 32767\<rfloor> \<le> \<lfloor>x * 32768\<rfloor>" and "\<lfloor>x * 32768\<rfloor> \<le> \<lfloor>x * 32767\<rfloor> + 1"
proof -
  show "\<lfloor>x * 32767\<rfloor> \<le> \<lfloor>x * 32768\<rfloor>"
    using assms by (intro floor_mono) simp
  have "x * 32768 < x * 32767 + 1"
    using assms by simp
  also have "\<dots> < real_of_int (\<lfloor>x * 32767\<rfloor> + 1) + 1"
    by linarith
  finally have "\<lfloor>x * 32768\<rfloor> < \<lfloor>x * 32767\<rfloor> + 1 + 1"
    by (simp add: floor_less_iff)
  then show "\<lfloor>x * 32768\<rfloor> \<le> \<lfloor>x * 32767\<rfloor> + 1"
    by simp
qed

text \<open>
  C4, as the claim states it, fails: for the sample \<open>1/2\<close>, inside \<open>[-1, 1]\<close>, the
  container holds 16383 (the sample times 32767, truncated) and the wire frame 16384.
\<close>

theorem wav_quantization_counterexample:
  "getInt16 (blob_bytes (createWavBlob [1 / 2] 16000)) 44 = 16383 \<and>
   sint (createBlob_int16 [1 / 2] ! 0) = 16384 \<and>
   - 1 \<le> (1 / 2 :: real) \<and> (1 / 2 :: real) \<le> 1"
  using wav_payload [of 0 "[1 / 2]" 16000]
  by (simp add: createBlob_int16_def wav_sample_def ToInt16_def js_trunc_def)

text \<open>
  C4, amended. The container builder clamps each sample to \<open>[-1, 1]\<close> and scales a
  negative one by 32768, as the frame encoder does, but a non-negative one by 32767.
  For every sample in \<open>[-1, 0]\<close> the 16-bit value written into the payload equals the
  value the frame encoder produces; for every sample strictly between 0 and 1 the payload
  holds the sample times 32767 truncated, which is the frame encoder's value or one less;
  every sample at or above 1 is written as 32767 and every sample at or below \<open>-1\<close> as
  \<open>-32768\<close>.
\<close>

theorem wav_quantization_against_frame:
  assumes "i < length pcm"
  shows "(- 1 \<le> pcm ! i \<and> pcm ! i \<le> 0 \<longrightarrow>
            getInt16 (blob_bytes (createWavBlob pcm r)) (44 + 2 * i)
              = sint (createBlob_int16 pcm ! i)) \<and>
         (0 < pcm ! i \<and> pcm ! i < 1 \<longrightarrow>
            getInt16 (blob_bytes (createWavBlob pcm r)) (44 + 2 * i) = \<lfloor>pcm ! i * 32767\<rfloor> \<and>
            sint (createBlob_int16 pcm ! i) = \<lfloor>pcm ! i * 32768\<rfloor> \<and>
            getInt16 (blob_bytes (createWavBlob pcm r)) (44 + 2 * i)
              \<le> sint (createBlob_int16 pcm ! i) \<and>
            sint (createBlob_int16 pcm ! i)
              \<le> getInt16 (blob_bytes (createWavBlob pcm r)) (44 + 2 * i) + 1) \<and>
         (1 \<le> pcm ! i \<longrightarrow>
            getInt16 (blob_bytes (createWavBlob pcm r)) (44 + 2 * i) = 32767) \<and>
         (pcm ! i \<le> - 1 \<longrightarrow>
            getInt16 (blob_bytes (createWavBlob pcm r)) (44 + 2 * i) = - 32768)"
  using assms floor_scale_close [of "pcm ! i"]
  by (simp add: wav_payload createBlob_int16_def wav_sample_nonpos wav_sample_pos
      quant_pos_32767 quant_pos_32768 wav_sample_clamped_high wav_sample_clamped_low)

theorem wav_quantization_against_frame_witness:
  "(0 :: nat) < length [- 1 / 2, 1 / 4, 2, - 3 :: real] \<and>
   (1 :: nat) < length [- 1 / 2, 1 / 4, 2, - 3 :: real] \<and>
   (2 :: nat) < length [- 1 / 2, 1 / 4, 2, - 3 :: real] \<and>
   (3 :: nat) < length [- 1 / 2, 1 / 4, 2, - 3 :: real] \<and>
   - 1 \<le> [- 1 / 2, 1 / 4, 2, - 3 :: real] ! 0 \<and> [- 1 / 2, 1 / 4, 2, - 3 :: real] ! 0 \<le> 0 \<and>
   0 < [- 1 / 2, 1 / 4, 2, - 3 :: real] ! 1 \<and> [- 1 / 2, 1 / 4, 2, - 3 :: real] ! 1 < 1 \<and>
   1 \<le> [- 1 / 2, 1 / 4, 2, - 3 :: real] ! 2 \<and> [- 1 / 2, 1 / 4, 2, - 3 :: real] ! 3 \<le> - 1 \<and>
   getInt16 (blob_bytes (createWavBlob [- 1 / 2, 1 / 4, 2, - 3] 16000)) 44
     = sint (createBlob_int16 [- 1 / 2, 1 / 4, 2, - 3] ! 0) \<and>
   getInt16 (blob_bytes (createWavBlob [- 1 / 2, 1 / 4, 2, - 3] 16000)) 46 = 8191 \<and>
   sint (createBlob_int16 [- 1 / 2, 1 / 4, 2, - 3] ! 1) = 8192 \<and>
   getInt16 (blob_bytes (createWavBlob [- 1 / 2, 1 / 4, 2, - 3] 16000)) 48 = 32767 \<and>
   getInt16 (blob_bytes (createWavBlob [- 1 / 2, 1 / 4, 2, - 3] 16000)) 50 = - 32768"
proof -
  have a: "(0 :: nat) < length [- 1 / 2, 1 / 4, 2, - 3 :: real]"
    by simp
  have b: "(1 :: nat) < length [- 1 / 2, 1 / 4, 2, - 3 :: real]"
    by simp
  have c: "(2 :: nat) < length [- 1 / 2, 1 / 4, 2, - 3 :: real]"
    by simp
  have d: "(3 :: nat) < length [- 1 / 2, 1 / 4, 2, - 3 :: real]"
    by simp
  show ?thesis
    using a b c d wav_quantization_against_frame [OF a, of 16000]
      wav_quantization_against_frame [OF b, of 16000]
      wav_quantization_against_frame [OF c, of 16000]
      wav_quantization_against_frame [OF d, of 16000]
    by simp
qed

subsection \<open>Decoding a wire frame\<close>

lemma b64_triple:
  fixes x y z :: nat
  assumes "x < 256" "y < 256" "z < 256"
  shows "(x div 4) * 4 + ((x mod 4) * 16 + y div 16) div 16 = x"
    and "(((x mod 4) * 16 + y div 16) mod 16) * 16 + ((y mod 16) * 4 + z div 64) div 4 = y"
    and "(((y mod 16) * 4 + z div 64) mod 4) * 64 + z mod 64 = z"
proof -
  have y16: "y div 16 < 16"
    using assms by simp
  have z64: "z div 64 < 4"
    using assms by simp
  have a: "((x mod 4) * 16 + y div 16) div 16 = x mod 4"
    using y16 by simp
  have b: "((x mod 4) * 16 + y div 16) mod 16 = y div 16"
    using y16 by simp
  have c: "((y mod 16) * 4 + z div 64) div 4 = y mod 16"
    using z64 by simp
  have d: "((y mod 16) * 4 + z div 64) mod 4 = z div 64"
    using z64 by simp
  show "(x div 4) * 4 + ((x mod 4) * 16 + y div 16) div 16 = x"
    by (simp only: a) simp
  show "(((x mod 4) * 16 + y div 16) mod 16) * 16 + ((y mod 16) * 4 + z div 64) div 4 = y"
    by (simp only: b c) simp
  show "(((y mod 16) * 4 + z div 64) mod 4) * 64 + z mod 64 = z"
    by (simp only: d) simp
qed

lemma b64_bounds:
  fixes x y z :: nat
  assumes "x < 256" "y < 256" "z < 256"
  shows "x div 4 < 64" and "(x mod 4) * 16 + y div 16 < 64"
    and "(y mod 16) * 4 + z div 64 < 64" and "z mod 64 < 64"
    and "(x mod 4) * 16 < 64" and "(y mod 16) * 4 < 64"
proof -
  have y16: "y div 16 < 16"
    using assms by simp
  have z64: "z div 64 < 4"
    using assms by simp
  have x4: "x mod 4 < 4"
    by simp
  have y16m: "y mod 16 < 16"
    by simp
  show "x div 4 < 64"
    using assms by simp
  show "(x mod 4) * 16 + y div 16 < 64"
    using y16 x4 by linarith
  show "(y mod 16) * 4 + z div 64 < 64"
    using z64 y16m by linarith
  show "z mod 64 < 64"
    by simp
  show "(x mod 4) * 16 < 64"
    using x4 by linarith
  show "(y mod 16) * 4 < 64"
    using y16m by linarith
qed

lemma of_char_b64_char:
  "i < 64 \<Longrightarrow> (of_char (b64_char i) :: nat) =
     (if i < 26 then 65 + i else if i < 52 then 71 + i else if i < 62 then i - 4
      else if i = 62 then 43 else 47)"
  by (simp add: b64_char_def)

lemma b64_index_char:
  assumes "i < 64"
  shows "b64_index (b64_char i) = Some i"
proof -
  consider "i < 26" | "26 \<le> i" "i < 52" | "52 \<le> i" "i < 62" | "i = 62" | "i = 63"
    using assms by linarith
  then show ?thesis
    by cases (auto simp: b64_index_def Let_def b64_char_def)
qed

lemma b64_char_not_pad:
  assumes "i < 64"
  shows "b64_char i \<noteq> CHR ''=''"
proof
  assume "b64_char i = CHR ''=''"
  then have "(of_char (b64_char i) :: nat) = 61"
    by simp
  then show False
    using assms by (simp add: of_char_b64_char split: if_splits)
qed

lemma atob_btoa: "atob (btoa s) = Some s"
proof (induction s rule: btoa.induct)
  case 1
  then show ?case by simp
next
  case (2 a)
  have x: "(of_char a :: nat) < 256"
    by simp
  show ?case
    using b64_triple(1) [OF x, of 0] b64_bounds [OF x x x]
    by (simp add: Let_def b64_index_char)
next
  case (3 a b)
  have x: "(of_char a :: nat) < 256"
    by simp
  have y: "(of_char b :: nat) < 256"
    by simp
  show ?case
    using b64_triple [OF x y, of 0] b64_bounds [OF x y y]
    by (simp add: Let_def b64_index_char b64_char_not_pad)
next
  case (4 a b c rest)
  have x: "(of_char a :: nat) < 256"
    by simp
  have y: "(of_char b :: nat) < 256"
    by simp
  have z: "(of_char c :: nat) < 256"
    by simp
  show ?case
    using b64_triple [OF x y z] b64_bounds [OF x y z] 4
    by (simp add: Let_def b64_index_char b64_char_not_pad)
qed

lemma of_char_fromCharCode: "(of_char (fromCharCode b) :: nat) = unat b"
  using unsigned_less [of b, where 'a = nat] by (simp add: fromCharCode_def)

lemma pcm16_samples_bytes:
  "pcm16_samples (map of_char (map fromCharCode (concat (map int16_bytes ws))))
     = Some (map (\<lambda>w. real_of_int (sint w) / 32768) ws)"
proof (induction ws)
  case Nil
  then show ?case by simp
next
  case (Cons w ws)
  have "unat w mod 256 + 256 * (unat w div 256 mod 256) = unat w"
    using le16_split [of "unat w"] unat_16_bound [of w] by simp
  then have "(word_of_nat (unat w mod 256 + 256 * (unat w div 256 mod 256)) :: 16 word) = w"
    by simp
  then show ?case
    using Cons by (simp add: int16_bytes_def of_char_fromCharCode unat_byte)
qed

lemma decode_createBlob:
  "decodePCM16 (data (createBlob samples))
     = Some (map (\<lambda>x. real_of_int (sint (ToInt16 (x * 32768))) / 32768) samples)"
proof -
  have "decodePCM16 (data (createBlob samples))
          = pcm16_samples (map of_char (map fromCharCode
              (concat (map int16_bytes (createBlob_int16 samples)))))"
    by (simp add: decodePCM16_def createBlob_def encode_def Let_def atob_btoa del: map_map)
  also have "\<dots> = Some (map (\<lambda>w. real_of_int (sint w) / 32768) (createBlob_int16 samples))"
    by (rule pcm16_samples_bytes)
  finally show ?thesis
    by (simp add: createBlob_int16_def comp_def)
qed

lemma js_trunc_close: "\<bar>real_of_int (js_trunc y) - y\<bar> < 1"
  unfolding js_trunc_def by (simp; linarith)

lemma js_trunc_range:
  assumes "- 1 \<le> x" "x < 1"
  shows "- 32768 \<le> js_trunc (x * 32768)" and "js_trunc (x * 32768) < 32768"
  using assms unfolding js_trunc_def
  by (auto simp: le_ceiling_iff floor_less_iff le_floor_iff ceiling_less_iff)

lemma quantization_error:
  assumes "- 1 \<le> x" "x < 1"
  shows "\<bar>real_of_int (sint (ToInt16 (x * 32768))) / 32768 - x\<bar> < 1 / 32768"
proof -
  have s: "sint (ToInt16 (x * 32768)) = js_trunc (x * 32768)"
    using js_trunc_range [OF assms] by (simp add: sint_ToInt16)
  have "\<bar>real_of_int (js_trunc (x * 32768)) - x * 32768\<bar> < 1"
    by (rule js_trunc_close)
  then have "\<bar>real_of_int (js_trunc (x * 32768)) / 32768 - x\<bar> * 32768 < 1"
    by (simp add: abs_if field_simps split: if_splits)
  then show ?thesis
    using s by (simp add: field_simps)
qed

text \<open>
  Below full scale the wire frame does round-trip: every sample in \<open>[-1, 1)\<close> is
  recovered to within one quantization step.
\<close>

lemma frame_roundtrip_below_full_scale:
  assumes "i < length samples" "- 1 \<le> samples ! i" "samples ! i < 1"
  shows "\<exists>d. decodePCM16 (data (createBlob samples)) = Some d \<and>
             length d = length samples \<and> \<bar>d ! i - samples ! i\<bar> < 1 / 32768"
  using assms quantization_error [of "samples ! i"]
  by (simp add: decode_createBlob)

text \<open>
  C3 does not hold of the code at the sample \<open>1\<close>, which lies in \<open>[-1, 1]\<close>:
  \<open>1 * 32768\<close> does not fit 16 signed bits and is stored as \<open>-32768\<close>, the wire data
  is \<open>AIA=\<close>, and it decodes to \<open>-1\<close>, two units and not one quantization step away.
  The container builder, on the same sample, writes 32767.
\<close>

theorem frame_roundtrip_fails_at_full_scale:
  "sint (createBlob_int16 [1] ! 0) = - 32768 \<and>
   data (createBlob [1]) = ''AIA='' \<and>
   decodePCM16 (data (createBlob [1])) = Some [- 1] \<and>
   \<not> \<bar>(- 1) - (1 :: real)\<bar> \<le> 1 / 32768 \<and>
   sint (ToInt16 (wav_sample 1)) = 32767"
  by (simp add: decodePCM16_def b64_index_def wav_sample_def codec_defs)

section \<open>The archive and the returned container\<close>

text \<open>
  C7, as the claim states it, fails in its last part: once \<open>stopSession\<close> has run, the
  archive is empty. The five frames are in the archive up to the stop and in the
  container it returns, not in the archive after it.
\<close>

theorem archive_after_stop_counterexample:
  "capturedAudioChunksRef
     (run (pause_scenario_events [1 / 2] [- 1 / 2] [1 / 4] [0] [1]) open_example)
     = [[1 / 2], [- 1 / 2], [1 / 4], [0], [1]] \<and>
   capturedAudioChunksRef
     (run (pause_scenario_events [1 / 2] [- 1 / 2] [1 / 4] [0] [1] @ [StopSession])
        open_example)
     = []"
  by (simp add: open_example_eq pause_scenario_events_def session_defs)

text \<open>
  C7, amended. The audio callback appends every frame to the archive, in arrival order
  and in every state; no step of the controller sends anything unless the session is
  active and not paused. In an open session that receives \<open>f1, f2\<close>, is paused (the
  pause having reached the callback's flag), and then receives \<open>f3, f4, f5\<close>: the archive
  holds \<open>f1 .. f5\<close> in order when stop is called; the channel was sent \<open>f1\<close> and
  \<open>f2\<close> only; \<open>stopSession\<close> returns a container of 44 bytes and two bytes per
  archived sample, whose payload holds at position \<open>i\<close> the 16-bit value of the
  \<open>i\<close>-th archived sample; and \<open>stopSession\<close> leaves the archive empty.
\<close>

theorem archive_unconditional_send_gated:
  "capturedAudioChunksRef (onaudioprocess f t) = capturedAudioChunksRef t @ [f] \<and>
   (sent (step e t) = sent t \<or> (isSessionActiveForCallback t \<and> \<not> isPausedForCallback t)) \<and>
   (sessionPromise s = Fulfilled \<and> isSessionActive s \<and> isSessionActiveForCallback s
      \<and> \<not> isPausedForCallback s \<longrightarrow>
    capturedAudioChunksRef (run (pause_scenario_events f1 f2 f3 f4 f5) s)
      = capturedAudioChunksRef s @ [f1, f2, f3, f4, f5] \<and>
    sent (run (pause_scenario_events f1 f2 f3 f4 f5) s)
      = sent s @ [createBlob f1, createBlob f2] \<and>
    audioBlob (snd (stopSession (run (pause_scenario_events f1 f2 f3 f4 f5) s)))
      = Some (createWavBlob (concat (capturedAudioChunksRef s) @ f1 @ f2 @ f3 @ f4 @ f5)
                SAMPLE_RATE) \<and>
    length (blob_bytes
      (createWavBlob (concat (capturedAudioChunksRef s) @ f1 @ f2 @ f3 @ f4 @ f5) SAMPLE_RATE))
      = 44 + 2 * length (concat (capturedAudioChunksRef s) @ f1 @ f2 @ f3 @ f4 @ f5) \<and>
    (\<forall>i < length (concat (capturedAudioChunksRef s) @ f1 @ f2 @ f3 @ f4 @ f5).
       getInt16 (blob_bytes
         (createWavBlob (concat (capturedAudioChunksRef s) @ f1 @ f2 @ f3 @ f4 @ f5)
            SAMPLE_RATE)) (44 + 2 * i)
       = sint (ToInt16 (wav_sample
           ((concat (capturedAudioChunksRef s) @ f1 @ f2 @ f3 @ f4 @ f5) ! i)))) \<and>
    capturedAudioChunksRef (fst (stopSession (run (pause_scenario_events f1 f2 f3 f4 f5) s)))
      = [] \<and>
    capturedAudioChunksRef (run (pause_scenario_events f1 f2 f3 f4 f5 @ [StopSession]) s)
      = [])"
  using archive_onaudioprocess [of f t] sent_step [of e t]
    pause_scenario [of s f1 f2 f3 f4 f5]
    wav_fields(5) [of "concat (capturedAudioChunksRef s) @ f1 @ f2 @ f3 @ f4 @ f5" SAMPLE_RATE]
    wav_payload [of _ "concat (capturedAudioChunksRef s) @ f1 @ f2 @ f3 @ f4 @ f5" SAMPLE_RATE]
  by blast

theorem archive_unconditional_send_gated_witness:
  "sessionPromise open_example = Fulfilled \<and> isSessionActive open_example \<and>
   isSessionActiveForCallback open_example \<and> \<not> isPausedForCallback open_example \<and>
   capturedAudioChunksRef (onaudioprocess [1 / 4] connecting_example) = [[1 / 2], [1 / 4]] \<and>
   capturedAudioChunksRef
     (run (pause_scenario_events [1 / 2] [- 1 / 2] [1 / 4] [0] [1]) open_example)
     = [[1 / 2], [- 1 / 2], [1 / 4], [0], [1]] \<and>
   sent (run (pause_scenario_events [1 / 2] [- 1 / 2] [1 / 4] [0] [1]) open_example)
     = [createBlob [1 / 2], createBlob [- 1 / 2]] \<and>
   audioBlob (snd (stopSession
     (run (pause_scenario_events [1 / 2] [- 1 / 2] [1 / 4] [0] [1]) open_example)))
     = Some (createWavBlob [1 / 2, - 1 / 2, 1 / 4, 0, 1] SAMPLE_RATE) \<and>
   length (blob_bytes (createWavBlob [1 / 2, - 1 / 2, 1 / 4, 0, 1] SAMPLE_RATE)) = 54 \<and>
   (4 :: nat) < length [1 / 2, - 1 / 2, 1 / 4, 0, 1 :: real] \<and>
   getInt16 (blob_bytes (createWavBlob [1 / 2, - 1 / 2, 1 / 4, 0, 1] SAMPLE_RATE)) 52 = 32767 \<and>
   getInt16 (blob_bytes (createWavBlob [1 / 2, - 1 / 2, 1 / 4, 0, 1] SAMPLE_RATE)) 46
     = - 16384 \<and>
   capturedAudioChunksRef
     (run (pause_scenario_events [1 / 2] [- 1 / 2] [1 / 4] [0] [1] @ [StopSession])
        open_example)
     = []"
proof -
  have h: "sessionPromise open_example = Fulfilled \<and> isSessionActive open_example \<and>
      isSessionActiveForCallback open_example \<and> \<not> isPausedForCallback open_example"
    by (simp add: open_example_eq)
  have c: "capturedAudioChunksRef open_example = [] \<and> sent open_example = [] \<and>
      capturedAudioChunksRef connecting_example = [[1 / 2]]"
    by (simp add: open_example_eq connecting_example_eq)
  note w = archive_unconditional_send_gated
    [of "[1 / 4]" connecting_example Effects open_example
        "[1 / 2]" "[- 1 / 2]" "[1 / 4]" "[0]" "[1]"]
  have g: "capturedAudioChunksRef (onaudioprocess [1 / 4] connecting_example)
      = [[1 / 2], [1 / 4]]"
    using w [THEN conjunct1] c by simp
  note sc = w [THEN conjunct2, THEN conjunct2, THEN mp, OF h]
  have s1: "capturedAudioChunksRef
      (run (pause_scenario_events [1 / 2] [- 1 / 2] [1 / 4] [0] [1]) open_example)
      = [[1 / 2], [- 1 / 2], [1 / 4], [0], [1]]"
    using sc [THEN conjunct1] c by simp
  have s2: "sent (run (pause_scenario_events [1 / 2] [- 1 / 2] [1 / 4] [0] [1]) open_example)
      = [createBlob [1 / 2], createBlob [- 1 / 2]]"
    using sc [THEN conjunct2, THEN conjunct1] c by simp
  have s3: "audioBlob (snd (stopSession
      (run (pause_scenario_events [1 / 2] [- 1 / 2] [1 / 4] [0] [1]) open_example)))
      = Some (createWavBlob [1 / 2, - 1 / 2, 1 / 4, 0, 1] SAMPLE_RATE)"
    using sc [THEN conjunct2, THEN conjunct2, THEN conjunct1] c by simp
  have s4: "length (blob_bytes (createWavBlob [1 / 2, - 1 / 2, 1 / 4, 0, 1] SAMPLE_RATE)) = 54"
    using sc [THEN conjunct2, THEN conjunct2, THEN conjunct2, THEN conjunct1] c by simp
  have s5: "\<forall>i < length [1 / 2, - 1 / 2, 1 / 4, 0, 1 :: real].
      getInt16 (blob_bytes (createWavBlob [1 / 2, - 1 / 2, 1 / 4, 0, 1] SAMPLE_RATE)) (44 + 2 * i)
      = sint (ToInt16 (wav_sample ([1 / 2, - 1 / 2, 1 / 4, 0, 1] ! i)))"
    using sc [THEN conjunct2, THEN conjunct2, THEN conjunct2, THEN conjunct2, THEN conjunct1] c
    by simp
  have s6: "getInt16 (blob_bytes (createWavBlob [1 / 2, - 1 / 2, 1 / 4, 0, 1] SAMPLE_RATE)) 52
      = 32767"
    using s5 [rule_format, of 4] by (simp add: wav_sample_def ToInt16_def js_trunc_def)
  have s7: "getInt16 (blob_bytes (createWavBlob [1 / 2, - 1 / 2, 1 / 4, 0, 1] SAMPLE_RATE)) 46
      = - 16384"
    using s5 [rule_format, of 1] by (simp add: wav_sample_def ToInt16_def js_trunc_def)
  have s8: "capturedAudioChunksRef
      (run (pause_scenario_events [1 / 2] [- 1 / 2] [1 / 4] [0] [1] @ [StopSession])
         open_example) = []"
    using sc [THEN conjunct2, THEN conjunct2, THEN conjunct2, THEN conjunct2, THEN conjunct2,
      THEN conjunct2] .
  show ?thesis
    using h g s1 s2 s3 s4 s6 s7 s8 by simp
qed

end
